theory Spec2Isabelle
  imports Main "HOL-Library.Log_Nat"
begin

section \<open>Python values: floats, characters, strings\<close>

subsection \<open>Binary64 floating point\<close>

text \<open>
  A finite Python \<open>float\<close> is modelled by the rational number it denotes. Every
  arithmetic operation computes the exact rational result and rounds it to the nearest
  binary64 value, ties to even (\<open>fl\<close>): 53 significant bits, exponent of the last bit
  not below \<open>-1074\<close> (subnormals). A decimal literal \<open>d\<close> of the source denotes
  \<open>fl d\<close>. Overflow to infinity is not modelled: all values of the engine stay
  below 2, except \<open>float(uncertainty_count)\<close>, which is bounded by the length of
  the text.
\<close>

definition round_half_even :: "rat \<Rightarrow> int" where
  "round_half_even y =
     (let n = \<lfloor>y\<rfloor>; r = y - of_int n
      in if r < 1 / 2 then n
         else if 1 / 2 < r then n + 1
         else if even n then n else n + 1)"

definition binade :: "rat \<Rightarrow> int" where
  "binade x =
     (let (p, q) = quotient_of \<bar>x\<bar>;
          e0 = bitlen p - bitlen q - 53;
          e = (if \<bar>x\<bar> / 2 powi e0 < 2 ^ 53 then e0 else e0 + 1)
      in max e (- 1074))"

definition fl :: "rat \<Rightarrow> rat" where
  "fl x = (if x = 0 then 0
           else let e = binade x
                in sgn x * of_int (round_half_even (\<bar>x\<bar> / 2 powi e)) * 2 powi e)"

definition fadd :: "rat \<Rightarrow> rat \<Rightarrow> rat" where
  "fadd a b = fl (a + b)"

definition fsub :: "rat \<Rightarrow> rat \<Rightarrow> rat" where
  "fsub a b = fl (a - b)"

definition fmul :: "rat \<Rightarrow> rat \<Rightarrow> rat" where
  "fmul a b = fl (a * b)"

definition float_of_nat :: "nat \<Rightarrow> rat" where
  "float_of_nat n = fl (of_nat n)"

subsection \<open>Characters and strings\<close>

text \<open>
  A text is a list of code points in the range 0..255. The character classes are those of
  Python's \<open>re\<close> on \<open>str\<close> patterns (\<open>\d\<close>, \<open>\w\<close>, \<open>\s\<close>) and of
  \<open>str.lower\<close>, restricted to that range.
\<close>

definition code_point :: "char \<Rightarrow> nat" where
  "code_point c = of_char c"

definition is_digit :: "char \<Rightarrow> bool" where
  "is_digit c = (let n = code_point c in 48 \<le> n \<and> n \<le> 57)"

definition digit_val :: "char \<Rightarrow> nat" where
  "digit_val c = code_point c - 48"

definition is_ascii_alnum :: "char \<Rightarrow> bool" where
  "is_ascii_alnum c =
     (let n = code_point c
      in (48 \<le> n \<and> n \<le> 57) \<or> (65 \<le> n \<and> n \<le> 90) \<or> (97 \<le> n \<and> n \<le> 122))"

definition is_word_char :: "char \<Rightarrow> bool" where
  "is_word_char c =
     (let n = code_point c
      in (48 \<le> n \<and> n \<le> 57) \<or> (65 \<le> n \<and> n \<le> 90) \<or> n = 95 \<or> (97 \<le> n \<and> n \<le> 122)
         \<or> n = 170 \<or> n = 178 \<or> n = 179 \<or> n = 181 \<or> n = 185 \<or> n = 186
         \<or> (188 \<le> n \<and> n \<le> 190) \<or> (192 \<le> n \<and> n \<le> 214)
         \<or> (216 \<le> n \<and> n \<le> 246) \<or> (248 \<le> n \<and> n \<le> 255))"

definition is_space_char :: "char \<Rightarrow> bool" where
  "is_space_char c =
     (let n = code_point c
      in (9 \<le> n \<and> n \<le> 13) \<or> (28 \<le> n \<and> n \<le> 32) \<or> n = 133 \<or> n = 160)"

definition lower_char :: "char \<Rightarrow> char" where
  "lower_char c =
     (let n = code_point c
      in if (65 \<le> n \<and> n \<le> 90) \<or> (192 \<le> n \<and> n \<le> 214) \<or> (216 \<le> n \<and> n \<le> 222)
         then char_of (n + 32) else c)"

text \<open>\<open>output.lower()\<close>\<close>

definition lower :: "string \<Rightarrow> string" where
  "lower s = map lower_char s"

fun starts_with :: "string \<Rightarrow> string \<Rightarrow> bool" where
  "starts_with s [] = True"
| "starts_with [] (p # ps) = False"
| "starts_with (c # s) (p # ps) = (c = p \<and> starts_with s ps)"

text \<open>\<open>word in s\<close>\<close>

fun str_contains :: "string \<Rightarrow> string \<Rightarrow> bool" where
  "str_contains [] word = (word = [])"
| "str_contains (c # s) word = (starts_with (c # s) word \<or> str_contains s word)"

text \<open>\<open>str(n)\<close> of an integer, as an f-string prints it.\<close>

function str_nat :: "nat \<Rightarrow> string" where
  "str_nat n = (if n < 10 then [char_of (48 + n)] else str_nat (n div 10) @ [char_of (48 + n mod 10)])"
  by pat_completeness auto
termination
  by (relation "measure id") auto

declare str_nat.simps [simp del]

definition str_int :: "int \<Rightarrow> string" where
  "str_int i = (if i < 0 then CHR ''-'' # str_nat (nat (- i)) else str_nat (nat i))"

text \<open>\<open>xs[:k]\<close>: a negative bound counts from the end.\<close>

definition slice_to :: "'a list \<Rightarrow> int \<Rightarrow> 'a list" where
  "slice_to xs k = (if 0 \<le> k then take (nat k) xs else take (nat (int (length xs) + k)) xs)"

datatype py_error = ReError | IndexError

text \<open>\<open>xs[0]\<close>\<close>

definition index0 :: "'a list \<Rightarrow> py_error + 'a" where
  "index0 xs = (case xs of [] \<Rightarrow> Inl IndexError | x # _ \<Rightarrow> Inr x)"

text \<open>\<open>d.get(key, default)\<close> on an optional entry of a dictionary.\<close>

definition dict_get :: "'a option \<Rightarrow> 'a \<Rightarrow> 'a" where
  "dict_get entry dflt = (case entry of None \<Rightarrow> dflt | Some v \<Rightarrow> v)"

section \<open>Regular expressions\<close>

text \<open>
  The fragment of Python's \<open>re\<close> that the engine's patterns use: literal characters,
  escapes, character sets (also negated), the greedy quantifiers \<open>+\<close>, \<open>*\<close> and
  \<open>{n}\<close>, and the word boundary \<open>\b\<close>. A pattern outside the fragment does not
  compile (\<open>None\<close>). Matching is by backtracking, a greedy quantifier trying the longer
  repetition first, as \<open>re\<close> does.
\<close>

datatype cls_item = CChar char | CDigit | CWord | CSpace

datatype atom = Chr char | Digit | WordCh | Space | InSet "cls_item list" | NotInSet "cls_item list"

datatype quant = Once | Star | Plus | Exactly nat

datatype item = Rep atom quant | Boundary

type_synonym regex = "item list"

text \<open>The backslash, which a string literal of the logic cannot contain.\<close>

definition bs :: string where
  "bs = [CHR 0x5C]"

definition escape_cls :: "char \<Rightarrow> cls_item option" where
  "escape_cls e =
     (if e = CHR ''d'' then Some CDigit
      else if e = CHR ''w'' then Some CWord
      else if e = CHR ''s'' then Some CSpace
      else if is_ascii_alnum e \<or> 128 \<le> code_point e then None
      else Some (CChar e))"

definition escape_atom :: "char \<Rightarrow> atom option" where
  "escape_atom e =
     (case escape_cls e of
        None \<Rightarrow> None
      | Some CDigit \<Rightarrow> Some Digit
      | Some CWord \<Rightarrow> Some WordCh
      | Some CSpace \<Rightarrow> Some Space
      | Some (CChar c) \<Rightarrow> Some (Chr c))"

fun requant :: "quant \<Rightarrow> item list \<Rightarrow> item list option" where
  "requant q (Rep a Once # acc) = Some (Rep a q # acc)"
| "requant q acc = None"

fun re_parse :: "item list \<Rightarrow> string \<Rightarrow> regex option"
  and re_parse_set :: "item list \<Rightarrow> bool \<Rightarrow> cls_item list \<Rightarrow> string \<Rightarrow> regex option"
  and re_parse_count :: "item list \<Rightarrow> nat \<Rightarrow> string \<Rightarrow> regex option"
where
  "re_parse acc [] = Some (rev acc)"
| "re_parse acc (c # s) =
     (if c = CHR 0x5C then
        (case s of
           [] \<Rightarrow> None
         | e # s' \<Rightarrow>
             if e = CHR ''b'' then re_parse (Boundary # acc) s'
             else (case escape_atom e of
                     None \<Rightarrow> None
                   | Some a \<Rightarrow> re_parse (Rep a Once # acc) s'))
      else if c = CHR ''['' then
        (case s of
           [] \<Rightarrow> None
         | e # s' \<Rightarrow>
             if e = CHR ''^'' then re_parse_set acc True [] s'
             else re_parse_set acc False [] (e # s'))
      else if c = CHR ''+'' then
        (case requant Plus acc of None \<Rightarrow> None | Some acc' \<Rightarrow> re_parse acc' s)
      else if c = CHR ''*'' then
        (case requant Star acc of None \<Rightarrow> None | Some acc' \<Rightarrow> re_parse acc' s)
      else if c = CHR ''{'' then
        (case s of
           [] \<Rightarrow> None
         | d # s' \<Rightarrow> if is_digit d then re_parse_count acc (digit_val d) s' else None)
      else if c \<in> set ''.^$?()|'' then None
      else re_parse (Rep (Chr c) Once # acc) s)"
| "re_parse_set acc neg items [] = None"
| "re_parse_set acc neg items (c # s) =
     (if c = CHR '']'' then
        (if items = [] then None
         else re_parse (Rep ((if neg then NotInSet else InSet) (rev items)) Once # acc) s)
      else if c = CHR 0x5C then
        (case s of
           [] \<Rightarrow> None
         | e # s' \<Rightarrow>
             (case escape_cls e of
                None \<Rightarrow> None
              | Some i \<Rightarrow> re_parse_set acc neg (i # items) s'))
      else if c = CHR ''-'' \<or> c = CHR ''['' then None
      else re_parse_set acc neg (CChar c # items) s)"
| "re_parse_count acc n [] = None"
| "re_parse_count acc n (c # s) =
     (if c = CHR ''}'' then
        (case requant (Exactly n) acc of None \<Rightarrow> None | Some acc' \<Rightarrow> re_parse acc' s)
      else if is_digit c then re_parse_count acc (10 * n + digit_val c) s
      else None)"

definition re_compile :: "string \<Rightarrow> regex option" where
  "re_compile pattern = re_parse [] pattern"

text \<open>The flag \<open>ic\<close> is \<open>re.IGNORECASE\<close>.\<close>

fun cls_ok :: "bool \<Rightarrow> cls_item \<Rightarrow> char \<Rightarrow> bool" where
  "cls_ok ic (CChar p) c = (if ic then lower_char c = lower_char p else c = p)"
| "cls_ok ic CDigit c = is_digit c"
| "cls_ok ic CWord c = is_word_char c"
| "cls_ok ic CSpace c = is_space_char c"

fun atom_ok :: "bool \<Rightarrow> atom \<Rightarrow> char \<Rightarrow> bool" where
  "atom_ok ic (Chr p) c = cls_ok ic (CChar p) c"
| "atom_ok ic Digit c = is_digit c"
| "atom_ok ic WordCh c = is_word_char c"
| "atom_ok ic Space c = is_space_char c"
| "atom_ok ic (InSet items) c = list_ex (\<lambda>i. cls_ok ic i c) items"
| "atom_ok ic (NotInSet items) c = (\<not> list_ex (\<lambda>i. cls_ok ic i c) items)"

text \<open>\<open>\b\<close>: exactly one of the previous and the next character is a word character.\<close>

definition at_boundary :: "char option \<Rightarrow> string \<Rightarrow> bool" where
  "at_boundary prev s =
     ((case prev of None \<Rightarrow> False | Some p \<Rightarrow> is_word_char p)
      \<noteq> (case s of [] \<Rightarrow> False | c # _ \<Rightarrow> is_word_char c))"

text \<open>
  The length of the match of \<open>r\<close> at the head of \<open>s\<close>, the character before it being
  \<open>prev\<close>; \<open>None\<close> when there is none.
\<close>

fun re_match_here :: "bool \<Rightarrow> regex \<Rightarrow> char option \<Rightarrow> string \<Rightarrow> nat option" where
  "re_match_here ic [] prev s = Some 0"
| "re_match_here ic (Boundary # r) prev s =
     (if at_boundary prev s then re_match_here ic r prev s else None)"
| "re_match_here ic (Rep a Once # r) prev s =
     (case s of
        [] \<Rightarrow> None
      | c # s' \<Rightarrow>
          if atom_ok ic a c then map_option Suc (re_match_here ic r (Some c) s') else None)"
| "re_match_here ic (Rep a Plus # r) prev s =
     (case s of
        [] \<Rightarrow> None
      | c # s' \<Rightarrow>
          if atom_ok ic a c then map_option Suc (re_match_here ic (Rep a Star # r) (Some c) s')
          else None)"
| "re_match_here ic (Rep a Star # r) prev s =
     (case s of
        [] \<Rightarrow> re_match_here ic r prev s
      | c # s' \<Rightarrow>
          if atom_ok ic a c then
            (case re_match_here ic (Rep a Star # r) (Some c) s' of
               Some n \<Rightarrow> Some (Suc n)
             | None \<Rightarrow> re_match_here ic r prev s)
          else re_match_here ic r prev s)"
| "re_match_here ic (Rep a (Exactly 0) # r) prev s = re_match_here ic r prev s"
| "re_match_here ic (Rep a (Exactly (Suc k)) # r) prev s =
     (case s of
        [] \<Rightarrow> None
      | c # s' \<Rightarrow>
          if atom_ok ic a c
          then map_option Suc (re_match_here ic (Rep a (Exactly k) # r) (Some c) s')
          else None)"

text \<open>
  The spans \<open>(start, end)\<close> of the non-overlapping matches, scanning from the left
  (\<open>re.finditer\<close>); \<open>i\<close> is the position of the head of the rest of the text.
\<close>

fun re_spans :: "bool \<Rightarrow> regex \<Rightarrow> char option \<Rightarrow> nat \<Rightarrow> string \<Rightarrow> (nat \<times> nat) list" where
  "re_spans ic r prev i [] =
     (case re_match_here ic r prev [] of None \<Rightarrow> [] | Some _ \<Rightarrow> [(i, i)])"
| "re_spans ic r prev i (c # s) =
     (case re_match_here ic r prev (c # s) of
        None \<Rightarrow> re_spans ic r (Some c) (Suc i) s
      | Some 0 \<Rightarrow> (i, i) # re_spans ic r (Some c) (Suc i) s
      | Some (Suc k) \<Rightarrow>
          (i, i + Suc k)
          # re_spans ic r (Some (last (take (Suc k) (c # s)))) (i + Suc k) (drop k s))"

definition re_finditer :: "bool \<Rightarrow> regex \<Rightarrow> string \<Rightarrow> (nat \<times> nat) list" where
  "re_finditer ic r s = re_spans ic r None 0 s"

text \<open>Whether \<open>re.search\<close> finds a match.\<close>

definition re_search :: "bool \<Rightarrow> regex \<Rightarrow> string \<Rightarrow> bool" where
  "re_search ic r s = (re_finditer ic r s \<noteq> [])"

definition re_findall :: "bool \<Rightarrow> regex \<Rightarrow> string \<Rightarrow> string list" where
  "re_findall ic r s = map (\<lambda>(a, b). take (b - a) (drop a s)) (re_finditer ic r s)"

fun split_at :: "string \<Rightarrow> nat \<Rightarrow> (nat \<times> nat) list \<Rightarrow> string list" where
  "split_at s e [] = [drop e s]"
| "split_at s e ((a, b) # sp) = take (a - e) (drop e s) # split_at s b sp"

definition re_split :: "bool \<Rightarrow> regex \<Rightarrow> string \<Rightarrow> string list" where
  "re_split ic r s = split_at s 0 (re_finditer ic r s)"

text \<open>The module-level functions, which compile the pattern first.\<close>

definition py_findall :: "string \<Rightarrow> string \<Rightarrow> bool \<Rightarrow> py_error + string list" where
  "py_findall pattern s ic =
     (case re_compile pattern of None \<Rightarrow> Inl ReError | Some r \<Rightarrow> Inr (re_findall ic r s))"

definition py_search :: "string \<Rightarrow> string \<Rightarrow> bool \<Rightarrow> py_error + bool" where
  "py_search pattern s ic =
     (case re_compile pattern of None \<Rightarrow> Inl ReError | Some r \<Rightarrow> Inr (re_search ic r s))"

definition py_split :: "string \<Rightarrow> string \<Rightarrow> py_error + string list" where
  "py_split pattern s =
     (case re_compile pattern of None \<Rightarrow> Inl ReError | Some r \<Rightarrow> Inr (re_split False r s))"

section \<open>The validation engine\<close>

datatype ConfidenceLevel = HIGH | MEDIUM | LOW | INSUFFICIENT

text \<open>An entry of \<open>details\<close>: the unweighted sub-score and the number of warnings.\<close>

record detail =
  detail_score :: rat
  detail_warnings :: nat

text \<open>The timestamp is the reading of the clock, an input of the model.\<close>

record ValidationResult =
  is_valid :: bool
  confidence :: ConfidenceLevel
  score :: rat
  details :: "(string \<times> detail) list"
  warnings :: "string list"
  timestamp :: nat
  validation_type :: string

text \<open>The configuration dictionary: a key is present or not.\<close>

record validator_config =
  confidence_threshold :: "rat option"
  enable_factual_validation :: "bool option"
  enable_logical_consistency :: "bool option"
  enable_source_attribution :: "bool option"
  max_warnings :: "int option"

record validation_rules_t =
  factual_patterns :: "string list"
  uncertainty_indicators :: "string list"
  citation_patterns :: "string list"

record OutputValidator =
  config :: validator_config
  validation_rules :: validation_rules_t

definition default_config :: validator_config where
  "default_config =
     \<lparr>confidence_threshold = Some (fl (7 / 10)),
      enable_factual_validation = Some True,
      enable_logical_consistency = Some True,
      enable_source_attribution = Some True,
      max_warnings = Some 10\<rparr>"

definition load_validation_rules :: validation_rules_t where
  "load_validation_rules =
     \<lparr>factual_patterns =
        [''according to [^,]+,'',
         ''studies show'',
         ''research indicates'',
         ''data suggests'',
         ''statistics show''],
      uncertainty_indicators =
        [''might be'',
         ''could be'',
         ''possibly'',
         ''perhaps'',
         ''it seems'',
         ''appears to''],
      citation_patterns =
        [bs @ ''[['' @ bs @ ''d'' @ bs @ ''w'' @ bs @ ''s,]+'' @ bs @ '']'',
         bs @ ''([^)]*20'' @ bs @ ''d{2}[^)]*'' @ bs @ '')'',
         ''source:'',
         ''reference:'',
         ''according to'']\<rparr>"

text \<open>The empty dictionary, which \<open>config or self._default_config()\<close> replaces as it does \<open>None\<close>.\<close>

definition empty_config :: validator_config where
  "empty_config =
     \<lparr>confidence_threshold = None,
      enable_factual_validation = None,
      enable_logical_consistency = None,
      enable_source_attribution = None,
      max_warnings = None\<rparr>"

text \<open>\<open>OutputValidator.__init__\<close>\<close>

definition init :: "validator_config option \<Rightarrow> OutputValidator" where
  "init cfg =
     \<lparr>config = (case cfg of
                   None \<Rightarrow> default_config
                 | Some c \<Rightarrow> if c = empty_config then default_config else c),
      validation_rules = load_validation_rules\<rparr>"

subsection \<open>The detectors\<close>

text \<open>The first loop of \<open>_validate_factual_claims\<close>, over the factual patterns.\<close>

fun factual_loop ::
  "string list \<Rightarrow> string \<Rightarrow> rat \<times> string list \<Rightarrow> py_error + rat \<times> string list" where
  "factual_loop [] output (sc, ws) = Inr (sc, ws)"
| "factual_loop (pattern # patterns) output (sc, ws) =
     (case py_findall pattern output True of
        Inl e \<Rightarrow> Inl e
      | Inr matches \<Rightarrow>
          if matches \<noteq> [] then
            (case index0 matches of
               Inl e \<Rightarrow> Inl e
             | Inr m \<Rightarrow>
                 factual_loop patterns output
                   (fsub sc (fl (2 / 10)),
                    ws @ [''Unsupported factual claim detected: '' @ m]))
          else factual_loop patterns output (sc, ws))"

text \<open>The second loop, which counts the matches of the uncertainty indicators.\<close>

fun uncertainty_loop :: "string list \<Rightarrow> string \<Rightarrow> nat \<Rightarrow> py_error + nat" where
  "uncertainty_loop [] output uncertainty_count = Inr uncertainty_count"
| "uncertainty_loop (pattern # patterns) output uncertainty_count =
     (case py_findall pattern output True of
        Inl e \<Rightarrow> Inl e
      | Inr matches \<Rightarrow> uncertainty_loop patterns output (uncertainty_count + length matches))"

definition validate_factual_claims ::
  "OutputValidator \<Rightarrow> string \<Rightarrow> py_error + rat \<times> string list" where
  "validate_factual_claims self output =
     (case factual_loop (factual_patterns (validation_rules self)) output (1, []) of
        Inl e \<Rightarrow> Inl e
      | Inr (sc, ws) \<Rightarrow>
          (case uncertainty_loop (uncertainty_indicators (validation_rules self)) output 0 of
             Inl e \<Rightarrow> Inl e
           | Inr uncertainty_count \<Rightarrow>
               let sc' =
                     (if 0 < uncertainty_count
                      then fadd sc
                             (min (fmul (float_of_nat uncertainty_count) (fl (1 / 10))) (fl (3 / 10)))
                      else sc)
               in Inr (max 0 (min 1 sc'), ws)))"

definition contradictions :: "(string \<times> string) list" where
  "contradictions =
     [(''always'', ''never''),
      (''all'', ''none''),
      (''every'', ''no''),
      (''completely'', ''partially'')]"

definition transition_words :: "string list" where
  "transition_words = [''however'', ''therefore'', ''moreover'', ''furthermore'', ''additionally'']"

text \<open>The loop of \<open>_validate_logical_consistency\<close> over the pairs; \<open>and\<close> evaluates its
  second search only when the first one matches.\<close>

fun contradiction_loop ::
  "(string \<times> string) list \<Rightarrow> string \<Rightarrow> rat \<times> string list \<Rightarrow> py_error + rat \<times> string list" where
  "contradiction_loop [] output (sc, ws) = Inr (sc, ws)"
| "contradiction_loop ((pos, neg) # pairs) output (sc, ws) =
     (case py_search (bs @ ''b'' @ pos @ bs @ ''b'') output True of
        Inl e \<Rightarrow> Inl e
      | Inr found_pos \<Rightarrow>
          if found_pos then
            (case py_search (bs @ ''b'' @ neg @ bs @ ''b'') output True of
               Inl e \<Rightarrow> Inl e
             | Inr found_neg \<Rightarrow>
                 if found_neg then
                   contradiction_loop pairs output
                     (fsub sc (fl (3 / 10)),
                      ws @ [''Potential contradiction detected: '' @ pos @ '' vs '' @ neg])
                 else contradiction_loop pairs output (sc, ws))
          else contradiction_loop pairs output (sc, ws))"

definition validate_logical_consistency ::
  "OutputValidator \<Rightarrow> string \<Rightarrow> py_error + rat \<times> string list" where
  "validate_logical_consistency self output =
     (case contradiction_loop contradictions output (1, []) of
        Inl e \<Rightarrow> Inl e
      | Inr (sc, ws) \<Rightarrow>
          (case py_split ''[.!?]+'' output of
             Inl e \<Rightarrow> Inl e
           | Inr sentences \<Rightarrow>
               let sc' =
                     (if 1 < length sentences then
                        (let has_transitions =
                               list_ex (\<lambda>word. str_contains (lower output) word) transition_words
                         in if has_transitions then fadd sc (fl (1 / 10)) else sc)
                      else sc)
               in Inr (max 0 (min 1 sc'), ws)))"

text \<open>\<open>any(re.search(pattern, output, re.IGNORECASE) for pattern in citation_patterns)\<close>,
  which stops at the first pattern that matches.\<close>

fun any_search :: "string list \<Rightarrow> string \<Rightarrow> py_error + bool" where
  "any_search [] output = Inr False"
| "any_search (pattern # patterns) output =
     (case py_search pattern output True of
        Inl e \<Rightarrow> Inl e
      | Inr found \<Rightarrow> if found then Inr True else any_search patterns output)"

fun citation_loop :: "string list \<Rightarrow> rat \<times> string list \<Rightarrow> rat \<times> string list" where
  "citation_loop [] (sc, ws) = (sc, ws)"
| "citation_loop (citation # citations) (sc, ws) =
     (if length citation < 5
      then citation_loop citations
             (fsub sc (fl (1 / 10)), ws @ [''Incomplete citation: '' @ citation])
      else citation_loop citations (sc, ws))"

definition validate_source_attribution ::
  "OutputValidator \<Rightarrow> string \<Rightarrow> py_error + rat \<times> string list" where
  "validate_source_attribution self output =
     (case any_search (citation_patterns (validation_rules self)) output of
        Inl e \<Rightarrow> Inl e
      | Inr has_citations \<Rightarrow>
          let (sc, ws) =
                (if \<not> has_citations
                 then (fsub 1 (fl (4 / 10)), [''No citations or source attributions found''])
                 else (1, []))
          in if has_citations then
               (case py_findall (bs @ ''[[^'' @ bs @ '']]*'' @ bs @ '']'') output False of
                  Inl e \<Rightarrow> Inl e
                | Inr incomplete_citations \<Rightarrow>
                    (case citation_loop incomplete_citations (sc, ws) of
                       (sc', ws') \<Rightarrow> Inr (max 0 (min 1 sc'), ws')))
             else Inr (max 0 (min 1 sc), ws))"

subsection \<open>The aggregator\<close>

definition determine_confidence :: "rat \<Rightarrow> ConfidenceLevel" where
  "determine_confidence s =
     (if fl (9 / 10) \<le> s then HIGH
      else if fl (7 / 10) \<le> s then MEDIUM
      else if fl (5 / 10) \<le> s then LOW
      else INSUFFICIENT)"

text \<open>
  One block of \<open>validate\<close>: when the detector is enabled, run it, add its weighted sub-score,
  extend the warnings and record the sub-score under the detector's key.
\<close>

definition run_detector ::
  "bool \<Rightarrow> (py_error + rat \<times> string list) \<Rightarrow> rat \<Rightarrow> string
   \<Rightarrow> rat \<times> string list \<times> (string \<times> detail) list
   \<Rightarrow> py_error + rat \<times> string list \<times> (string \<times> detail) list" where
  "run_detector enabled detector weight key st =
     (case st of
        (sc, ws, ds) \<Rightarrow>
          if enabled then
            (case detector of
               Inl e \<Rightarrow> Inl e
             | Inr (sub_score, sub_warnings) \<Rightarrow>
                 Inr (fadd sc (fmul sub_score weight),
                      ws @ sub_warnings,
                      ds @ [(key, \<lparr>detail_score = sub_score,
                                         detail_warnings = length sub_warnings\<rparr>)]))
          else Inr st)"

text \<open>The three blocks in the order of the source, from score 0.0 and no warnings.\<close>

definition run_detectors ::
  "OutputValidator \<Rightarrow> string \<Rightarrow> py_error + rat \<times> string list \<times> (string \<times> detail) list" where
  "run_detectors self output =
     (case run_detector (dict_get (enable_factual_validation (config self)) True)
             (validate_factual_claims self output) (fl (4 / 10)) ''factual_validation''
             (0, [], []) of
        Inl e \<Rightarrow> Inl e
      | Inr st1 \<Rightarrow>
          (case run_detector (dict_get (enable_logical_consistency (config self)) True)
                  (validate_logical_consistency self output) (fl (3 / 10)) ''logical_consistency''
                  st1 of
             Inl e \<Rightarrow> Inl e
           | Inr st2 \<Rightarrow>
               run_detector (dict_get (enable_source_attribution (config self)) True)
                 (validate_source_attribution self output) (fl (3 / 10)) ''source_attribution''
                 st2))"

text \<open>The limit on the warnings: the list is cut first, the summary is built afterwards.\<close>

definition limit_warnings :: "int \<Rightarrow> string list \<Rightarrow> string list" where
  "limit_warnings max_w ws =
     (if max_w < int (length ws) then
        (let ws' = slice_to ws max_w
         in ws' @ [''... and '' @ str_int (int (length ws') - max_w) @ '' more warnings''])
      else ws)"

definition validate ::
  "OutputValidator \<Rightarrow> string \<Rightarrow> string option \<Rightarrow> string \<Rightarrow> nat \<Rightarrow> py_error + ValidationResult" where
  "validate self output context vtype now =
     (case run_detectors self output of
        Inl e \<Rightarrow> Inl e
      | Inr (s, ws, ds) \<Rightarrow>
          Inr \<lparr>is_valid = (dict_get (confidence_threshold (config self)) (fl (7 / 10)) \<le> s),
               confidence = determine_confidence s,
               score = s,
               details = ds,
               warnings = limit_warnings (dict_get (max_warnings (config self)) 10) ws,
               timestamp = now,
               validation_type = vtype\<rparr>)"

section \<open>The vocabulary of the specification\<close>

text \<open>
  The closed forms that the detectors are compared with. They speak of the same floats,
  patterns and matching as the engine; what they leave out is its loops, its running score
  and its error paths.
\<close>

text \<open>The clamp to [0.0, 1.0].\<close>

definition clamp01 :: "rat \<Rightarrow> rat" where
  "clamp01 x = max 0 (min 1 x)"

text \<open>\<open>s\<close> minus \<open>d\<close>, \<open>n\<close> times over: each subtraction rounds.\<close>

definition minus_each :: "rat \<Rightarrow> nat \<Rightarrow> rat \<Rightarrow> rat" where
  "minus_each d n s = ((\<lambda>x. fsub x d) ^^ n) s"

text \<open>The pattern matches somewhere in the text, ignoring case; all its matches, from the
  left and without overlap; the first of them.\<close>

definition matches_ic :: "string \<Rightarrow> string \<Rightarrow> bool" where
  "matches_ic pattern text =
     (case re_compile pattern of None \<Rightarrow> False | Some r \<Rightarrow> re_search True r text)"

definition all_matches :: "bool \<Rightarrow> string \<Rightarrow> string \<Rightarrow> string list" where
  "all_matches ic pattern text =
     (case re_compile pattern of None \<Rightarrow> [] | Some r \<Rightarrow> re_findall ic r text)"

definition first_match_ic :: "string \<Rightarrow> string \<Rightarrow> string" where
  "first_match_ic pattern text =
     (case all_matches True pattern text of [] \<Rightarrow> [] | m # _ \<Rightarrow> m)"

text \<open>The factual patterns that match, each counted once, and the total number of matches of
  the uncertainty indicators.\<close>

definition matching_factual_patterns :: "string \<Rightarrow> string list" where
  "matching_factual_patterns text =
     filter (\<lambda>p. matches_ic p text) (factual_patterns load_validation_rules)"

definition hedge_count :: "string \<Rightarrow> nat" where
  "hedge_count text =
     sum_list (map (\<lambda>p. length (all_matches True p text)) (uncertainty_indicators load_validation_rules))"

definition factual_spec :: "string \<Rightarrow> rat \<times> string list" where
  "factual_spec text =
     (clamp01
        (fadd (minus_each (fl (2 / 10)) (length (matching_factual_patterns text)) 1)
           (min (fmul (float_of_nat (hedge_count text)) (fl (1 / 10))) (fl (3 / 10)))),
      map (\<lambda>p. ''Unsupported factual claim detected: '' @ first_match_ic p text)
        (matching_factual_patterns text))"

text \<open>The pattern is in the fragment, so that compiling it raises no error.\<close>

definition compiles :: "string \<Rightarrow> bool" where
  "compiles pattern = (re_compile pattern \<noteq> None)"

text \<open>A word occurs as a whole word, ignoring case: \<open>\bword\b\<close> matches. The pairs of
  which both words do.\<close>

definition word_pattern :: "string \<Rightarrow> string" where
  "word_pattern w = bs @ ''b'' @ w @ bs @ ''b''"

definition whole_word_ic :: "string \<Rightarrow> string \<Rightarrow> bool" where
  "whole_word_ic w text = matches_ic (word_pattern w) text"

definition contradicting_pairs :: "string \<Rightarrow> (string \<times> string) list" where
  "contradicting_pairs text =
     filter (\<lambda>(pos, neg). whole_word_ic pos text \<and> whole_word_ic neg text) contradictions"

text \<open>The segments between the runs of sentence-terminal punctuation, and whether a
  transition word is a substring of the lower-cased text.\<close>

definition segments :: "string \<Rightarrow> string list" where
  "segments text =
     (case re_compile ''[.!?]+'' of None \<Rightarrow> [] | Some r \<Rightarrow> re_split False r text)"

definition has_transition :: "string \<Rightarrow> bool" where
  "has_transition text = list_ex (\<lambda>w. str_contains (lower text) w) transition_words"

definition logical_spec :: "string \<Rightarrow> rat \<times> string list" where
  "logical_spec text =
     (clamp01
        (let s = minus_each (fl (3 / 10)) (length (contradicting_pairs text)) 1
         in if 1 < length (segments text) \<and> has_transition text then fadd s (fl (1 / 10)) else s),
      map (\<lambda>(pos, neg). ''Potential contradiction detected: '' @ pos @ '' vs '' @ neg)
        (contradicting_pairs text))"

text \<open>Some citation pattern matches; the bracketed spans \<open>[...]\<close> of the text, and those
  shorter than 5 characters, brackets included.\<close>

definition has_citation :: "string \<Rightarrow> bool" where
  "has_citation text = list_ex (\<lambda>p. matches_ic p text) (citation_patterns load_validation_rules)"

definition bracketed_spans :: "string \<Rightarrow> string list" where
  "bracketed_spans text = all_matches False (bs @ ''[[^'' @ bs @ '']]*'' @ bs @ '']'') text"

definition short_spans :: "string \<Rightarrow> string list" where
  "short_spans text = filter (\<lambda>c. length c < 5) (bracketed_spans text)"

definition source_spec :: "string \<Rightarrow> rat \<times> string list" where
  "source_spec text =
     (if has_citation text
      then (clamp01 (minus_each (fl (1 / 10)) (length (short_spans text)) 1),
            map (\<lambda>c. ''Incomplete citation: '' @ c) (short_spans text))
      else (clamp01 (fsub 1 (fl (4 / 10))), [''No citations or source attributions found'']))"

text \<open>The flags of the configuration, with the defaults of \<open>validate\<close>.\<close>

definition factual_enabled :: "OutputValidator \<Rightarrow> bool" where
  "factual_enabled self = dict_get (enable_factual_validation (config self)) True"

definition logical_enabled :: "OutputValidator \<Rightarrow> bool" where
  "logical_enabled self = dict_get (enable_logical_consistency (config self)) True"

definition source_enabled :: "OutputValidator \<Rightarrow> bool" where
  "source_enabled self = dict_get (enable_source_attribution (config self)) True"

definition threshold :: "OutputValidator \<Rightarrow> rat" where
  "threshold self = dict_get (confidence_threshold (config self)) (fl (7 / 10))"

definition warning_limit :: "OutputValidator \<Rightarrow> int" where
  "warning_limit self = dict_get (max_warnings (config self)) 10"

text \<open>The sub-score and the warnings that a detector returns.\<close>

definition detector_score :: "py_error + rat \<times> string list \<Rightarrow> rat" where
  "detector_score d = (case d of Inl _ \<Rightarrow> 0 | Inr (s, _) \<Rightarrow> s)"

definition detector_warnings :: "py_error + rat \<times> string list \<Rightarrow> string list" where
  "detector_warnings d = (case d of Inl _ \<Rightarrow> [] | Inr (_, ws) \<Rightarrow> ws)"

text \<open>The pairs (sub-score, weight) of the enabled detectors, in the order factual, logical,
  source, and their sum, accumulated from 0.0 in that order.\<close>

definition weighted_terms :: "OutputValidator \<Rightarrow> string \<Rightarrow> (rat \<times> rat) list" where
  "weighted_terms self text =
     (if factual_enabled self
      then [(detector_score (validate_factual_claims self text), fl (4 / 10))] else [])
     @ (if logical_enabled self
        then [(detector_score (validate_logical_consistency self text), fl (3 / 10))] else [])
     @ (if source_enabled self
        then [(detector_score (validate_source_attribution self text), fl (3 / 10))] else [])"

definition weighted_sum :: "(rat \<times> rat) list \<Rightarrow> rat" where
  "weighted_sum terms = foldl (\<lambda>acc (s, w). fadd acc (fmul s w)) 0 terms"

text \<open>The warnings of the enabled detectors, concatenated in the same order, before the limit.\<close>

definition untruncated_warnings :: "OutputValidator \<Rightarrow> string \<Rightarrow> string list" where
  "untruncated_warnings self text =
     (if factual_enabled self then detector_warnings (validate_factual_claims self text) else [])
     @ (if logical_enabled self then detector_warnings (validate_logical_consistency self text) else [])
     @ (if source_enabled self then detector_warnings (validate_source_attribution self text) else [])"

text \<open>The entries of \<open>details\<close>: one per enabled detector, under its key.\<close>

definition detail_of :: "py_error + rat \<times> string list \<Rightarrow> detail" where
  "detail_of d = \<lparr>detail_score = detector_score d, detail_warnings = length (detector_warnings d)\<rparr>"

definition expected_details :: "OutputValidator \<Rightarrow> string \<Rightarrow> (string \<times> detail) list" where
  "expected_details self text =
     (if factual_enabled self
      then [(''factual_validation'', detail_of (validate_factual_claims self text))] else [])
     @ (if logical_enabled self
        then [(''logical_consistency'', detail_of (validate_logical_consistency self text))] else [])
     @ (if source_enabled self
        then [(''source_attribution'', detail_of (validate_source_attribution self text))] else [])"

section \<open>Example inputs\<close>

text \<open>The texts and configurations at which the results below are evaluated.\<close>

definition sky_text :: string where
  "sky_text = ''According to recent studies, the sky is always blue everywhere on Earth.''"

definition limit_one_config :: validator_config where
  "limit_one_config = empty_config\<lparr>max_warnings := Some 1\<rparr>"

definition negative_limit_config :: validator_config where
  "negative_limit_config = empty_config\<lparr>max_warnings := Some (- 1)\<rparr>"

definition contradiction_text :: string where
  "contradiction_text = ''studies show always never''"

definition hedged_text :: string where
  "hedged_text = ''Studies show it might be so; perhaps.''"

definition however_text :: string where
  "however_text = ''It is always so. However, it is never so.''"

definition source_text :: string where
  "source_text = ''source: x []''"

section \<open>Rounding to binary64\<close>

lemma bitlen_powi_bounds:
  assumes "0 < (n::int)"
  shows "(2::rat) powi (bitlen n - 1) \<le> of_int n" and "of_int n < (2::rat) powi bitlen n"
proof -
  from assms have b: "2 ^ nat (bitlen n - 1) \<le> n" "n < 2 ^ nat (bitlen n)"
    using bitlen_bounds [of n] by simp_all
  from assms have pos: "0 < bitlen n"
    using bitlen_nonneg [of n] bitlen_eq_zero_iff [of n] by (simp add: order_less_le)
  have "(2::rat) powi (bitlen n - 1) = 2 ^ nat (bitlen n - 1)"
    using pos by (simp add: power_int_nonneg_exp)
  also have "\<dots> = of_int (2 ^ nat (bitlen n - 1))" by simp
  also have "\<dots> \<le> of_int n" using b(1) by (simp only: of_int_le_iff)
  finally show "(2::rat) powi (bitlen n - 1) \<le> of_int n" .
  have "(of_int n :: rat) < of_int (2 ^ nat (bitlen n))" using b(2) by (simp only: of_int_less_iff)
  also have "\<dots> = 2 powi bitlen n"
    using pos by (simp add: power_int_nonneg_exp)
  finally show "of_int n < (2::rat) powi bitlen n" .
qed

lemma binade_unique:
  fixes a :: rat
  assumes "0 < a"
    and "2 ^ 52 \<le> a / 2 powi e" "a / 2 powi e < 2 ^ 53"
    and "2 ^ 52 \<le> a / 2 powi e'" "a / 2 powi e' < 2 ^ 53"
  shows "e = e'"
proof -
  have aux: False if lt: "d < d'" and lo: "2 ^ 52 \<le> a / 2 powi d'" and hi: "a / 2 powi d < 2 ^ 53"
    for d d' :: int
  proof -
    have "(2::rat) powi (d + 1) \<le> 2 powi d'"
      using lt by (intro power_int_increasing) simp_all
    then have le: "2 * (2::rat) powi d \<le> 2 powi d'"
      by (simp add: power_int_add)
    have pd: "0 < (2::rat) powi d" and pd': "0 < (2::rat) powi d'"
      by (simp_all add: zero_less_power_int)
    from lo pd' have "2 ^ 52 * 2 powi d' \<le> a" by (simp add: pos_le_divide_eq)
    moreover from hi pd have "a < 2 ^ 53 * 2 powi d" by (simp add: pos_divide_less_eq)
    ultimately have "2 ^ 52 * 2 powi d' < 2 ^ 52 * (2 * (2::rat) powi d)" by simp
    then have "2 powi d' < 2 * (2::rat) powi d" by simp
    with le show False by simp
  qed
  show ?thesis
    using aux [of e e'] aux [of e' e] assms by (cases e e' rule: linorder_cases) auto
qed

lemma binade_exists:
  fixes x :: rat
  assumes "x \<noteq> 0"
  defines "e0 \<equiv> bitlen (fst (quotient_of \<bar>x\<bar>)) - bitlen (snd (quotient_of \<bar>x\<bar>)) - 53"
  defines "e \<equiv> (if \<bar>x\<bar> / 2 powi e0 < 2 ^ 53 then e0 else e0 + 1)"
  shows "2 ^ 52 \<le> \<bar>x\<bar> / 2 powi e \<and> \<bar>x\<bar> / 2 powi e < 2 ^ 53"
proof -
  obtain p q where pq: "quotient_of \<bar>x\<bar> = (p, q)" by (cases "quotient_of \<bar>x\<bar>")
  then have q: "0 < q" and xa: "\<bar>x\<bar> = of_int p / of_int q"
    using quotient_of_denom_pos [OF pq] quotient_of_div [OF pq] by simp_all
  from assms(1) have "0 < \<bar>x\<bar>" by simp
  with xa q have p: "0 < p" by (simp add: zero_less_divide_iff)
  note bp = bitlen_powi_bounds [OF p] and bq = bitlen_powi_bounds [OF q]
  have e0: "e0 = bitlen p - bitlen q - 53" by (simp add: e0_def pq)
  have qpos: "(0::rat) < of_int q" using q by simp
  have P: "0 < (2::rat) powi k" for k by (simp add: zero_less_power_int)
  have pdiff: "(2::rat) powi (a - b) = 2 powi a / 2 powi b" for a b
    by (simp add: power_int_diff)
  have padd: "(2::rat) powi (a + b) = 2 powi a * 2 powi b" for a b
    by (simp add: power_int_add)
  have lo: "(2::rat) powi (bitlen p - 1) / 2 powi bitlen q < \<bar>x\<bar>"
  proof -
    have "(2::rat) powi (bitlen p - 1) / 2 powi bitlen q < 2 powi (bitlen p - 1) / of_int q"
      using bq(2) qpos P by (intro divide_strict_left_mono) simp_all
    also have "\<dots> \<le> of_int p / of_int q"
      using bp(1) qpos by (intro divide_right_mono) simp_all
    finally show ?thesis by (simp add: xa)
  qed
  have hi: "\<bar>x\<bar> < (2::rat) powi bitlen p / 2 powi (bitlen q - 1)"
  proof -
    have "of_int p / of_int q < (2::rat) powi bitlen p / of_int q"
      using bp(2) qpos by (intro divide_strict_right_mono) simp_all
    also have "\<dots> \<le> 2 powi bitlen p / 2 powi (bitlen q - 1)"
    proof (rule divide_left_mono)
      show "(2::rat) powi (bitlen q - 1) \<le> of_int q" by (rule bq(1))
      show "0 \<le> (2::rat) powi bitlen p" using P [of "bitlen p"] by simp
      show "0 < of_int q * (2::rat) powi (bitlen q - 1)"
        using qpos P [of "bitlen q - 1"] by (rule mult_pos_pos)
    qed
    finally show ?thesis by (simp add: xa)
  qed
  have lo': "2 ^ 52 < \<bar>x\<bar> / 2 powi e0"
  proof -
    have "bitlen p - 1 - bitlen q = 52 + e0" by (simp add: e0)
    then have "(2::rat) powi (bitlen p - 1 - bitlen q) = 2 powi (52 + e0)" by (rule arg_cong)
    then have "(2::rat) powi (bitlen p - 1) / 2 powi bitlen q = 2 powi 52 * 2 powi e0"
      by (simp only: pdiff padd)
    with lo have "2 powi 52 * 2 powi e0 < \<bar>x\<bar>" by simp
    then show ?thesis using P [of e0] by (simp add: pos_less_divide_eq)
  qed
  have hi': "\<bar>x\<bar> / 2 powi e0 < 2 ^ 54"
  proof -
    have "bitlen p - (bitlen q - 1) = 54 + e0" by (simp add: e0)
    then have "(2::rat) powi (bitlen p - (bitlen q - 1)) = 2 powi (54 + e0)" by (rule arg_cong)
    then have "(2::rat) powi bitlen p / 2 powi (bitlen q - 1) = 2 powi 54 * 2 powi e0"
      by (simp only: pdiff padd)
    with hi have "\<bar>x\<bar> < 2 powi 54 * 2 powi e0" by simp
    then show ?thesis using P [of e0] by (simp add: pos_divide_less_eq)
  qed
  show ?thesis
  proof (cases "\<bar>x\<bar> / 2 powi e0 < 2 ^ 53")
    case True
    then show ?thesis using lo' by (simp add: e_def)
  next
    case False
    then have ge: "2 ^ 53 \<le> \<bar>x\<bar> / 2 powi e0" by simp
    have e: "e = e0 + 1" using False by (simp add: e_def)
    have "\<bar>x\<bar> / 2 powi e = \<bar>x\<bar> / 2 powi e0 / 2"
      unfolding e by (simp only: padd) simp
    then obtain y where y: "\<bar>x\<bar> / 2 powi e = y / 2" "y = \<bar>x\<bar> / 2 powi e0" by blast
    from ge hi' have "2 ^ 53 \<le> y" "y < 2 ^ 54" by (simp_all only: y(2))
    then show ?thesis unfolding y(1) by simp
  qed
qed

lemma binade_eqI:
  assumes "x \<noteq> 0" "- 1074 \<le> e" "2 ^ 52 \<le> \<bar>x\<bar> / 2 powi e" "\<bar>x\<bar> / 2 powi e < 2 ^ 53"
  shows "binade x = e"
proof -
  define e0 where "e0 = bitlen (fst (quotient_of \<bar>x\<bar>)) - bitlen (snd (quotient_of \<bar>x\<bar>)) - 53"
  define e1 where "e1 = (if \<bar>x\<bar> / 2 powi e0 < 2 ^ 53 then e0 else e0 + 1)"
  have "2 ^ 52 \<le> \<bar>x\<bar> / 2 powi e1 \<and> \<bar>x\<bar> / 2 powi e1 < 2 ^ 53"
    unfolding e1_def e0_def using assms(1) by (rule binade_exists)
  with assms have "e1 = e"
    by (intro binade_unique [of "\<bar>x\<bar>"]) simp_all
  moreover have "binade x = max e1 (- 1074)"
    by (simp add: binade_def e1_def e0_def Let_def split_beta)
  ultimately show ?thesis using assms(2) by simp
qed

lemma fl_eqI:
  assumes "x \<noteq> 0" "- 1074 \<le> e" "2 ^ 52 \<le> \<bar>x\<bar> / 2 powi e" "\<bar>x\<bar> / 2 powi e < 2 ^ 53"
    and "sgn x * of_int (round_half_even (\<bar>x\<bar> / 2 powi e)) * 2 powi e = y"
  shows "fl x = y"
  using assms(1,5) binade_eqI [OF assms(1-4)] by (simp add: fl_def)

lemma floor_rat_numeral_div:
  "\<lfloor>(numeral a :: rat) / numeral b\<rfloor> = numeral a div numeral b"
  using floor_divide_of_int_eq [of "numeral a" "numeral b", where ?'a = rat] by simp

lemmas fl_eval = round_half_even_def floor_rat_numeral_div Let_def

lemma round_half_even_of_int: "round_half_even (of_int m) = m"
  by (simp add: round_half_even_def)

lemma round_half_even_ge: "of_int n \<le> y \<Longrightarrow> n \<le> round_half_even y"
proof -
  assume "of_int n \<le> y"
  then have "n \<le> \<lfloor>y\<rfloor>" by (simp add: le_floor_iff)
  then show ?thesis by (simp add: round_half_even_def Let_def)
qed

lemma round_half_even_le: "y \<le> of_int n \<Longrightarrow> round_half_even y \<le> n"
proof (cases "y = of_int n")
  case True
  then show ?thesis by (simp add: round_half_even_of_int)
next
  case False
  assume "y \<le> of_int n"
  with False have "y < of_int n" by simp
  then have "\<lfloor>y\<rfloor> < n" by (simp add: floor_less_iff)
  then show ?thesis by (simp add: round_half_even_def Let_def)
qed

lemma binade_range:
  assumes "x \<noteq> 0"
  shows "- 1074 \<le> binade x" and "\<bar>x\<bar> / 2 powi binade x < 2 ^ 53"
    and "2 ^ 52 \<le> \<bar>x\<bar> / 2 powi binade x \<or> binade x = - 1074"
proof -
  define e0 where "e0 = bitlen (fst (quotient_of \<bar>x\<bar>)) - bitlen (snd (quotient_of \<bar>x\<bar>)) - 53"
  define e1 where "e1 = (if \<bar>x\<bar> / 2 powi e0 < 2 ^ 53 then e0 else e0 + 1)"
  have r: "2 ^ 52 \<le> \<bar>x\<bar> / 2 powi e1" "\<bar>x\<bar> / 2 powi e1 < 2 ^ 53"
    using binade_exists [OF assms] unfolding e1_def e0_def by simp_all
  have b: "binade x = max e1 (- 1074)"
    by (simp add: binade_def e1_def e0_def Let_def split_beta)
  show "- 1074 \<le> binade x" by (simp add: b)
  show "2 ^ 52 \<le> \<bar>x\<bar> / 2 powi binade x \<or> binade x = - 1074"
    using r(1) by (cases "- 1074 \<le> e1") (simp_all add: b max_def)
  show "\<bar>x\<bar> / 2 powi binade x < 2 ^ 53"
  proof (cases "- 1074 \<le> e1")
    case True
    then show ?thesis using r(2) by (simp add: b max_def)
  next
    case False
    then have "(2::rat) powi e1 \<le> 2 powi (- 1074)"
      by (intro power_int_increasing) simp_all
    moreover have "0 < (2::rat) powi e1" by (simp add: zero_less_power_int)
    ultimately have "\<bar>x\<bar> / 2 powi (- 1074) \<le> \<bar>x\<bar> / 2 powi e1"
      by (intro divide_left_mono mult_pos_pos) (simp_all add: zero_less_power_int)
    with r(2) False show ?thesis by (simp add: b max_def)
  qed
qed

text \<open>A number with at most 53 significant bits above the smallest exponent is a float.\<close>

lemma fl_representable:
  assumes m: "0 \<le> m" "m \<le> 2 ^ 53" and e: "- 1074 \<le> e" and s: "s = 1 \<or> s = - 1"
  shows "fl (s * of_int m * 2 powi e) = s * of_int m * 2 powi e"
proof (cases "m = 0")
  case True
  then show ?thesis by (simp add: fl_def)
next
  case False
  with m have mpos: "0 < m" by simp
  define y :: rat where "y = s * of_int m * 2 powi e"
  define b where "b = binade y"
  have P: "0 < (2::rat) powi k" for k by (simp add: zero_less_power_int)
  have pdiff: "(2::rat) powi (c - d) = 2 powi c / 2 powi d" for c d
    by (simp add: power_int_diff)
  have ay: "\<bar>y\<bar> = of_int m * 2 powi e"
    using s mpos P [of e] by (auto simp: y_def abs_mult)
  have y0: "y \<noteq> 0" using ay mpos P [of e] by auto
  have sy: "sgn y * \<bar>y\<bar> = y" by (simp add: sgn_mult_abs)
  have q: "\<bar>y\<bar> / 2 powi b = of_int m * 2 powi (e - b)"
    by (simp add: ay pdiff)
  have "\<exists>k. \<bar>y\<bar> / 2 powi b = of_int k"
  proof (cases "b \<le> e")
    case True
    then have "(2::rat) powi (e - b) = of_int (2 ^ nat (e - b))"
      by (simp add: power_int_nonneg_exp)
    then have "\<bar>y\<bar> / 2 powi b = of_int (m * 2 ^ nat (e - b))"
      by (simp only: q of_int_mult)
    then show ?thesis ..
  next
    case False
    with e have "b \<noteq> - 1074" by simp
    with binade_range(3) [OF y0] have lo: "2 ^ 52 \<le> \<bar>y\<bar> / 2 powi b" by (simp add: b_def)
    from False have "(2::rat) powi (e - b) \<le> 2 powi (- 1)"
      by (intro power_int_increasing) simp_all
    then have "(2::rat) powi (e - b) \<le> 1 / 2" by simp
    moreover have "(0::rat) \<le> of_int m" using mpos by simp
    ultimately have "of_int m * 2 powi (e - b) \<le> (of_int m :: rat) * (1 / 2)"
      by (rule mult_left_mono)
    moreover have "(of_int m :: rat) \<le> of_int (2 ^ 53)" using m(2) by (simp only: of_int_le_iff)
    ultimately have "of_int m * 2 powi (e - b) \<le> (2 ^ 52 :: rat)" by simp
    with lo q have "\<bar>y\<bar> / 2 powi b = of_int (2 ^ 52)" by simp
    then show ?thesis ..
  qed
  then obtain k where k: "\<bar>y\<bar> / 2 powi b = of_int k" ..
  have "fl y = sgn y * of_int (round_half_even (\<bar>y\<bar> / 2 powi b)) * 2 powi b"
    using y0 by (simp add: fl_def b_def Let_def)
  also have "\<dots> = sgn y * (\<bar>y\<bar> / 2 powi b) * 2 powi b"
    by (simp only: k round_half_even_of_int)
  also have "\<dots> = sgn y * \<bar>y\<bar>" using P [of b] by simp
  finally show ?thesis using sy by (simp add: y_def)
qed

lemma fl_idem: "fl (fl x) = fl x"
proof (cases "x = 0")
  case True
  then show ?thesis by (simp add: fl_def)
next
  case False
  define b where "b = binade x"
  define m where "m = round_half_even (\<bar>x\<bar> / 2 powi b)"
  have P: "0 < (2::rat) powi k" for k by (simp add: zero_less_power_int)
  have "0 \<le> \<bar>x\<bar> / 2 powi b" using P [of b] by simp
  then have "of_int 0 \<le> \<bar>x\<bar> / 2 powi b" by simp
  then have m0: "0 \<le> m" unfolding m_def by (rule round_half_even_ge)
  have "\<bar>x\<bar> / 2 powi b \<le> of_int (2 ^ 53)"
    using binade_range(2) [OF False] by (simp add: b_def)
  then have m1: "m \<le> 2 ^ 53" unfolding m_def by (rule round_half_even_le)
  have s: "sgn x = 1 \<or> sgn x = - 1" using False by (simp add: sgn_if)
  have "fl x = sgn x * of_int m * 2 powi b"
    using False by (simp add: fl_def b_def m_def Let_def)
  moreover have "fl (sgn x * of_int m * 2 powi b) = sgn x * of_int m * 2 powi b"
    using m0 m1 binade_range(1) [OF False] s unfolding b_def by (rule fl_representable)
  ultimately show ?thesis by simp
qed

lemma fl_nonneg: "0 \<le> x \<Longrightarrow> 0 \<le> fl x"
proof (cases "x = 0")
  case True
  then show ?thesis by (simp add: fl_def)
next
  case False
  assume "0 \<le> x"
  with False have x: "0 < x" by simp
  have "0 \<le> \<bar>x\<bar> / 2 powi binade x" by (simp add: zero_le_power_int)
  then have "of_int 0 \<le> \<bar>x\<bar> / 2 powi binade x" by simp
  then have "0 \<le> round_half_even (\<bar>x\<bar> / 2 powi binade x)" by (rule round_half_even_ge)
  then show ?thesis using x by (simp add: fl_def Let_def zero_le_power_int)
qed

lemma fadd_zero_right: "fadd (fl x) 0 = fl x"
  by (simp add: fadd_def fl_idem)

lemma fl_one: "fl 1 = 1"
  using fl_representable [of 1 0 1] by simp

lemma fl_9_10: "fl (9 / 10) = 8106479329266893 / 2 ^ 53"
  by (rule fl_eqI [where e = "- 53"]) (simp_all add: fl_eval)

lemma fl_7_10: "fl (7 / 10) = 6305039478318694 / 2 ^ 53"
  by (rule fl_eqI [where e = "- 53"]) (simp_all add: fl_eval)

lemma fl_5_10: "fl (5 / 10) = 1 / 2"
  by (rule fl_eqI [where e = "- 53"]) (simp_all add: fl_eval)

section \<open>The detectors in closed form\<close>

lemma compiles_factual: "list_all compiles (factual_patterns load_validation_rules)"
  by code_simp

lemma compiles_uncertainty: "list_all compiles (uncertainty_indicators load_validation_rules)"
  by code_simp

lemma compiles_citation: "list_all compiles (citation_patterns load_validation_rules)"
  by code_simp

lemma py_findall_compiles:
  "compiles p \<Longrightarrow> py_findall p t ic = Inr (all_matches ic p t)"
  by (auto simp: compiles_def py_findall_def all_matches_def)

lemma py_search_compiles:
  "compiles p \<Longrightarrow> py_search p t True = Inr (matches_ic p t)"
  by (auto simp: compiles_def py_search_def matches_ic_def)

lemma all_matches_empty_iff:
  "compiles p \<Longrightarrow> all_matches True p t = [] \<longleftrightarrow> \<not> matches_ic p t"
  by (auto simp: compiles_def all_matches_def matches_ic_def re_search_def re_findall_def)

lemma minus_each_Suc: "minus_each d (Suc n) s = minus_each d n (fsub s d)"
  using funpow_swap1 [of "\<lambda>x. fsub x d" n s] by (simp add: minus_each_def)

lemma minus_each_0: "minus_each d 0 s = s"
  by (simp add: minus_each_def)

lemma factual_loop_spec:
  assumes "list_all compiles ps"
  shows "factual_loop ps t (sc, ws) =
           Inr (minus_each (fl (2 / 10)) (length (filter (\<lambda>p. matches_ic p t) ps)) sc,
                ws @ map (\<lambda>p. ''Unsupported factual claim detected: '' @ first_match_ic p t)
                       (filter (\<lambda>p. matches_ic p t) ps))"
  using assms
proof (induction ps arbitrary: sc ws)
  case Nil
  show ?case by (simp add: minus_each_0)
next
  case (Cons p ps)
  then have c: "compiles p" and IH: "\<And>sc ws. factual_loop ps t (sc, ws) =
           Inr (minus_each (fl (2 / 10)) (length (filter (\<lambda>p. matches_ic p t) ps)) sc,
                ws @ map (\<lambda>p. ''Unsupported factual claim detected: '' @ first_match_ic p t)
                       (filter (\<lambda>p. matches_ic p t) ps))"
    by simp_all
  show ?case
  proof (cases "matches_ic p t")
    case True
    with all_matches_empty_iff [OF c, of t] obtain m ms where m: "all_matches True p t = m # ms"
      by (cases "all_matches True p t") auto
    then have "first_match_ic p t = m" by (simp add: first_match_ic_def)
    with True m show ?thesis
      by (simp add: py_findall_compiles [OF c] index0_def IH minus_each_Suc)
  next
    case False
    with all_matches_empty_iff [OF c, of t] have "all_matches True p t = []" by simp
    with False show ?thesis
      by (simp add: py_findall_compiles [OF c] IH)
  qed
qed

lemma uncertainty_loop_spec:
  assumes "list_all compiles ps"
  shows "uncertainty_loop ps t n = Inr (n + sum_list (map (\<lambda>p. length (all_matches True p t)) ps))"
  using assms
  by (induction ps arbitrary: n) (simp_all add: py_findall_compiles)

lemma fl_minus_each: "fl (minus_each d n 1) = minus_each d n 1"
  by (cases n) (simp_all add: minus_each_def fl_one fsub_def fl_idem)

lemma validate_factual_claims_spec:
  "validate_factual_claims (init cfg) text = Inr (factual_spec text)"
proof -
  define k where "k = length (matching_factual_patterns text)"
  define c where "c = hedge_count text"
  define s where "s = minus_each (fl (2 / 10)) k 1"
  define h where "h = min (fmul (float_of_nat c) (fl (1 / 10))) (fl (3 / 10))"
  have l1: "factual_loop (factual_patterns load_validation_rules) text (1, []) =
      Inr (s, map (\<lambda>p. ''Unsupported factual claim detected: '' @ first_match_ic p text)
                (matching_factual_patterns text))"
    by (simp add: factual_loop_spec [OF compiles_factual] s_def k_def matching_factual_patterns_def)
  have l2: "uncertainty_loop (uncertainty_indicators load_validation_rules) text 0 = Inr c"
    by (simp add: uncertainty_loop_spec [OF compiles_uncertainty] c_def hedge_count_def)
  have e: "(if 0 < c then fadd s h else s) = fadd s h"
  proof (cases "c = 0")
    case True
    have "h = 0"
      using fl_nonneg [of "3 / 10"] by (simp add: h_def True float_of_nat_def fmul_def fl_def)
    moreover have "fl s = s" unfolding s_def by (rule fl_minus_each)
    ultimately show ?thesis by (simp add: fadd_def)
  next
    case False
    then show ?thesis by simp
  qed
  have "validate_factual_claims (init cfg) text =
      Inr (max 0 (min 1 (if 0 < c then fadd s h else s)),
           map (\<lambda>p. ''Unsupported factual claim detected: '' @ first_match_ic p text)
             (matching_factual_patterns text))"
    unfolding h_def by (simp add: validate_factual_claims_def init_def l1 l2 Let_def)
  also have "\<dots> = Inr (factual_spec text)"
    unfolding e by (simp add: factual_spec_def clamp01_def s_def h_def k_def c_def)
  finally show ?thesis .
qed

lemma compiles_contradictions:
  "list_all (\<lambda>(pos, neg). compiles (word_pattern pos) \<and> compiles (word_pattern neg)) contradictions"
  by code_simp

lemma compiles_sentence: "compiles ''[.!?]+''"
  by code_simp

lemma compiles_bracket: "compiles (bs @ ''[[^'' @ bs @ '']]*'' @ bs @ '']'')"
  by code_simp

lemma contradiction_loop_spec:
  assumes "list_all (\<lambda>(pos, neg). compiles (word_pattern pos) \<and> compiles (word_pattern neg)) pairs"
  shows "contradiction_loop pairs t (sc, ws) =
           Inr (minus_each (fl (3 / 10))
                  (length (filter (\<lambda>(pos, neg). whole_word_ic pos t \<and> whole_word_ic neg t) pairs)) sc,
                ws @ map (\<lambda>(pos, neg). ''Potential contradiction detected: '' @ pos @ '' vs '' @ neg)
                       (filter (\<lambda>(pos, neg). whole_word_ic pos t \<and> whole_word_ic neg t) pairs))"
  using assms
proof (induction pairs arbitrary: sc ws)
  case Nil
  show ?case by (simp add: minus_each_0)
next
  case (Cons pr pairs)
  obtain pos neg where pr: "pr = (pos, neg)" by (cases pr)
  from Cons.prems have c: "compiles (word_pattern pos)" "compiles (word_pattern neg)"
    and rest: "list_all (\<lambda>(pos, neg). compiles (word_pattern pos) \<and> compiles (word_pattern neg)) pairs"
    by (simp_all add: pr)
  note IH = Cons.IH [OF rest]
  have s1: "py_search (bs @ ''b'' @ pos @ bs @ ''b'') t True = Inr (whole_word_ic pos t)"
    using py_search_compiles [OF c(1), of t] by (simp add: word_pattern_def whole_word_ic_def)
  have s2: "py_search (bs @ ''b'' @ neg @ bs @ ''b'') t True = Inr (whole_word_ic neg t)"
    using py_search_compiles [OF c(2), of t] by (simp add: word_pattern_def whole_word_ic_def)
  show ?case
    using s1 s2 unfolding pr by (simp add: IH minus_each_Suc)
qed

lemma validate_logical_consistency_spec:
  "validate_logical_consistency (init cfg) text = Inr (logical_spec text)"
proof -
  have sp: "py_split ''[.!?]+'' text = Inr (segments text)"
    using compiles_sentence by (auto simp: compiles_def py_split_def segments_def)
  show ?thesis
    by (simp add: validate_logical_consistency_def contradiction_loop_spec [OF compiles_contradictions]
        sp logical_spec_def contradicting_pairs_def has_transition_def clamp01_def Let_def)
qed

lemma any_search_spec:
  assumes "list_all compiles ps"
  shows "any_search ps t = Inr (list_ex (\<lambda>p. matches_ic p t) ps)"
  using assms by (induction ps) (simp_all add: py_search_compiles)

lemma citation_loop_spec:
  "citation_loop cs (sc, ws) =
     (minus_each (fl (1 / 10)) (length (filter (\<lambda>c. length c < 5) cs)) sc,
      ws @ map (\<lambda>c. ''Incomplete citation: '' @ c) (filter (\<lambda>c. length c < 5) cs))"
  by (induction cs arbitrary: sc ws) (simp_all add: minus_each_0 minus_each_Suc)

lemma validate_source_attribution_spec:
  "validate_source_attribution (init cfg) text = Inr (source_spec text)"
proof -
  have a: "any_search (citation_patterns load_validation_rules) text = Inr (has_citation text)"
    by (simp add: any_search_spec [OF compiles_citation] has_citation_def)
  have f: "py_findall (bs @ ''[[^'' @ bs @ '']]*'' @ bs @ '']'') text False = Inr (bracketed_spans text)"
    unfolding bracketed_spans_def by (rule py_findall_compiles [OF compiles_bracket])
  show ?thesis
    using a f
    by (simp add: validate_source_attribution_def init_def citation_loop_spec source_spec_def
        short_spans_def clamp01_def)
qed

lemma clamp01_range: "0 \<le> clamp01 x" "clamp01 x \<le> 1"
  by (simp_all add: clamp01_def)

section \<open>The aggregator\<close>

lemma run_detectors_spec:
  "run_detectors (init cfg) text =
     Inr (weighted_sum (weighted_terms (init cfg) text),
          untruncated_warnings (init cfg) text,
          expected_details (init cfg) text)"
  by (simp add: run_detectors_def run_detector_def weighted_sum_def weighted_terms_def
      untruncated_warnings_def expected_details_def detail_of_def detector_score_def
      detector_warnings_def factual_enabled_def logical_enabled_def source_enabled_def
      validate_factual_claims_spec validate_logical_consistency_spec
      validate_source_attribution_spec split: prod.splits)

lemma validate_spec:
  "validate (init cfg) text context mode now =
     Inr \<lparr>is_valid = (threshold (init cfg) \<le> weighted_sum (weighted_terms (init cfg) text)),
          confidence = determine_confidence (weighted_sum (weighted_terms (init cfg) text)),
          score = weighted_sum (weighted_terms (init cfg) text),
          details = expected_details (init cfg) text,
          warnings = limit_warnings (warning_limit (init cfg)) (untruncated_warnings (init cfg) text),
          timestamp = now,
          validation_type = mode\<rparr>"
  by (simp add: validate_def run_detectors_spec threshold_def warning_limit_def)

text \<open>
  Claim C3. For every text, context and configuration and any two mode strings, the two
  results of \<open>validate\<close> agree on \<open>is_valid\<close>, \<open>confidence\<close>, \<open>score\<close>,
  \<open>details\<close> and \<open>warnings\<close>; the mode is only echoed in \<open>validation_type\<close>, and
  the timestamp is the reading of the clock.
\<close>

theorem validate_mode_independent:
  "\<exists>r1 r2. validate (init cfg) text context m1 now1 = Inr r1
          \<and> validate (init cfg) text context m2 now2 = Inr r2
          \<and> is_valid r1 = is_valid r2 \<and> confidence r1 = confidence r2 \<and> score r1 = score r2
          \<and> details r1 = details r2 \<and> warnings r1 = warnings r2
          \<and> validation_type r1 = m1 \<and> validation_type r2 = m2
          \<and> timestamp r1 = now1 \<and> timestamp r2 = now2"
  by (simp add: validate_spec)

lemma detector_ranges:
  "0 \<le> fst (factual_spec text)" "fst (factual_spec text) \<le> 1"
  "0 \<le> fst (logical_spec text)" "fst (logical_spec text) \<le> 1"
  "0 \<le> fst (source_spec text)" "fst (source_spec text) \<le> 1"
  by (simp_all add: factual_spec_def logical_spec_def source_spec_def clamp01_range)

lemma detector_score_fst: "detector_score (Inr p) = fst p"
  by (cases p) (simp add: detector_score_def)

lemma weighted_terms_range:
  "list_all (\<lambda>(s, w). 0 \<le> s \<and> s \<le> 1) (weighted_terms (init cfg) text)"
  by (simp add: weighted_terms_def validate_factual_claims_spec validate_logical_consistency_spec
      validate_source_attribution_spec detector_score_fst detector_ranges)

text \<open>
  Claim C1. For every text and every configuration (hence every subset of enabled detectors),
  \<open>validate\<close> returns a result whose score is the sum, accumulated from 0.0 in the order
  factual, logical, source, of the enabled detectors' clamped sub-scores times their fixed
  weights 0.4, 0.3 and 0.3, with no further clamping; and \<open>is_valid\<close> holds exactly when
  that score is at least the configured \<open>confidence_threshold\<close>.
\<close>

theorem validate_score_is_weighted_sum:
  "\<exists>r. validate (init cfg) text context mode now = Inr r
       \<and> score r = weighted_sum (weighted_terms (init cfg) text)
       \<and> is_valid r = (threshold (init cfg) \<le> score r)
       \<and> list_all (\<lambda>(s, w). 0 \<le> s \<and> s \<le> 1) (weighted_terms (init cfg) text)"
  by (simp add: validate_spec weighted_terms_range)

text \<open>
  Claim C8. For every text, optional context, mode string and configuration, \<open>validate\<close>
  returns a result and raises no error, and each detector returns a sub-score in [0.0, 1.0].
\<close>

theorem validate_total:
  "(\<exists>r. validate (init cfg) text context mode now = Inr r)
   \<and> (\<exists>s ws. validate_factual_claims (init cfg) text = Inr (s, ws) \<and> 0 \<le> s \<and> s \<le> 1)
   \<and> (\<exists>s ws. validate_logical_consistency (init cfg) text = Inr (s, ws) \<and> 0 \<le> s \<and> s \<le> 1)
   \<and> (\<exists>s ws. validate_source_attribution (init cfg) text = Inr (s, ws) \<and> 0 \<le> s \<and> s \<le> 1)"
proof (intro conjI)
  show "\<exists>r. validate (init cfg) text context mode now = Inr r"
    by (simp add: validate_spec)
  show "\<exists>s ws. validate_factual_claims (init cfg) text = Inr (s, ws) \<and> 0 \<le> s \<and> s \<le> 1"
    using detector_ranges [of "text"]
    by (cases "factual_spec text") (simp add: validate_factual_claims_spec)
  show "\<exists>s ws. validate_logical_consistency (init cfg) text = Inr (s, ws) \<and> 0 \<le> s \<and> s \<le> 1"
    using detector_ranges [of "text"]
    by (cases "logical_spec text") (simp add: validate_logical_consistency_spec)
  show "\<exists>s ws. validate_source_attribution (init cfg) text = Inr (s, ws) \<and> 0 \<le> s \<and> s \<le> 1"
    using detector_ranges [of "text"]
    by (cases "source_spec text") (simp add: validate_source_attribution_spec)
qed

lemma fl_4999: "fl (4999 / 10000) = 9005397814890044 / 2 ^ 54"
  by (rule fl_eqI [where e = "- 54"]) (simp_all add: fl_eval)

text \<open>
  Claim C2. The confidence tier of the returned result is that of its score \<open>s\<close>: HIGH
  exactly when \<open>s \<ge> 0.9\<close>, MEDIUM exactly when \<open>0.7 \<le> s < 0.9\<close>, LOW exactly when
  \<open>0.5 \<le> s < 0.7\<close>, INSUFFICIENT otherwise; the lower bound of each band belongs to it:
  tier(0.9) = HIGH, tier(0.7) = MEDIUM, tier(0.5) = LOW, tier(0.4999) = INSUFFICIENT. The
  bounds are the floats that the literals denote.
\<close>

theorem confidence_bands:
  "(determine_confidence s = HIGH \<longleftrightarrow> fl (9 / 10) \<le> s)
   \<and> (determine_confidence s = MEDIUM \<longleftrightarrow> fl (7 / 10) \<le> s \<and> s < fl (9 / 10))
   \<and> (determine_confidence s = LOW \<longleftrightarrow> fl (5 / 10) \<le> s \<and> s < fl (7 / 10))
   \<and> (determine_confidence s = INSUFFICIENT \<longleftrightarrow> s < fl (5 / 10))
   \<and> determine_confidence (fl (9 / 10)) = HIGH
   \<and> determine_confidence (fl (7 / 10)) = MEDIUM
   \<and> determine_confidence (fl (5 / 10)) = LOW
   \<and> determine_confidence (fl (4999 / 10000)) = INSUFFICIENT
   \<and> (\<exists>r. validate (init cfg) text context mode now = Inr r
          \<and> confidence r = determine_confidence (score r))"
proof -
  have o: "fl (5 / 10) < fl (7 / 10)" "fl (7 / 10) < fl (9 / 10)" "fl (4999 / 10000) < fl (5 / 10)"
    unfolding fl_5_10 fl_7_10 fl_9_10 fl_4999 by simp_all
  have "\<exists>r. validate (init cfg) text context mode now = Inr r
          \<and> confidence r = determine_confidence (score r)"
    by (simp add: validate_spec)
  with o show ?thesis
    unfolding determine_confidence_def by auto
qed

section \<open>Concrete results and the limit on warnings\<close>

lemma fl_4_10: "fl (4 / 10) = 7205759403792794 / 2 ^ 54"
  by (rule fl_eqI [where e = "- 54"]) (simp_all add: fl_eval)

lemma fl_3_10: "fl (3 / 10) = 5404319552844595 / 2 ^ 54"
  by (rule fl_eqI [where e = "- 54"]) (simp_all add: fl_eval)

lemma fl_2_10: "fl (2 / 10) = 7205759403792794 / 2 ^ 55"
  by (rule fl_eqI [where e = "- 55"]) (simp_all add: fl_eval)

lemma fl_6_10: "fl (6 / 10) = 5404319552844595 / 2 ^ 53"
  by (rule fl_eqI [where e = "- 53"]) (simp_all add: fl_eval)

lemma fl_8_10: "fl (8 / 10) = 7205759403792794 / 2 ^ 53"
  by (rule fl_eqI [where e = "- 53"]) (simp_all add: fl_eval)

lemma fl_88_100: "fl (88 / 100) = 7926335344172073 / 2 ^ 53"
  by (rule fl_eqI [where e = "- 53"]) (simp_all add: fl_eval)

lemma fsub_1_04: "fsub 1 (fl (4 / 10)) = fl (6 / 10)"
  unfolding fsub_def fl_4_10 fl_6_10
  by (rule fl_eqI [where e = "- 53"]) (simp_all add: fl_eval)

lemma fsub_1_02: "fsub 1 (fl (2 / 10)) = fl (8 / 10)"
  unfolding fsub_def fl_2_10 fl_8_10
  by (rule fl_eqI [where e = "- 53"]) (simp_all add: fl_eval)

lemma fadd_04_03: "fadd (fl (4 / 10)) (fl (3 / 10)) = fl (7 / 10)"
  unfolding fadd_def fl_4_10 fl_3_10 fl_7_10
  by (rule fl_eqI [where e = "- 53"]) (simp_all add: fl_eval)

lemma fmul_06_03: "fmul (fl (6 / 10)) (fl (3 / 10)) = 6485183463413514 / 2 ^ 55"
  unfolding fmul_def fl_6_10 fl_3_10
  by (rule fl_eqI [where e = "- 55"]) (simp_all add: fl_eval)

lemma fadd_07_018: "fadd (fl (7 / 10)) (6485183463413514 / 2 ^ 55) = 7926335344172072 / 2 ^ 53"
  unfolding fadd_def fl_7_10
  by (rule fl_eqI [where e = "- 53"]) (simp_all add: fl_eval)

lemma fmul_one: "fmul 1 (fl x) = fl x"
  by (simp add: fmul_def fl_idem)

lemma fadd_zero_left: "fadd 0 (fl x) = fl x"
  by (simp add: fadd_def fl_idem)

lemma empty_score:
  "weighted_sum [(1, fl (4 / 10)), (1, fl (3 / 10)), (fl (6 / 10), fl (3 / 10))]
     = 7926335344172072 / 2 ^ 53"
proof -
  have "weighted_sum [(1, fl (4 / 10)), (1, fl (3 / 10)), (fl (6 / 10), fl (3 / 10))]
      = fadd (fadd (fadd 0 (fmul 1 (fl (4 / 10)))) (fmul 1 (fl (3 / 10))))
          (fmul (fl (6 / 10)) (fl (3 / 10)))"
    unfolding weighted_sum_def by (simp only: foldl.simps prod.case)
  also have "\<dots> = 7926335344172072 / 2 ^ 53"
    by (simp only: fmul_one fadd_zero_left fadd_04_03 fmul_06_03 fadd_07_018)
  finally show ?thesis .
qed

lemma sky_factual: "matching_factual_patterns sky_text = [''according to [^,]+,'']"
  by code_simp

lemma sky_first: "first_match_ic ''according to [^,]+,'' sky_text = ''According to recent studies,''"
  by code_simp

lemma sky_hedges: "hedge_count sky_text = 0"
  by code_simp

lemma sky_pairs: "contradicting_pairs sky_text = []"
  by code_simp

lemma sky_always: "whole_word_ic ''always'' sky_text \<and> \<not> whole_word_ic ''never'' sky_text"
  by code_simp

lemma sky_segments: "length (segments sky_text) = 2"
  by code_simp

lemma sky_transition: "\<not> has_transition sky_text"
  by code_simp

lemma sky_citation: "has_citation sky_text"
  by code_simp

lemma sky_according: "matches_ic ''according to'' sky_text"
  by code_simp

lemma sky_short: "short_spans sky_text = []"
  by code_simp

lemma empty_factual: "matching_factual_patterns [] = []"
  by code_simp

lemma empty_hedges: "hedge_count [] = 0"
  by code_simp

lemma empty_pairs: "contradicting_pairs [] = []"
  by code_simp

lemma empty_segments: "length (segments []) = 1"
  by code_simp

lemma empty_citation: "\<not> has_citation []"
  by code_simp

lemma factual_spec_no_hedges:
  assumes "hedge_count t = 0"
  shows "factual_spec t =
           (clamp01 (minus_each (fl (2 / 10)) (length (matching_factual_patterns t)) 1),
            map (\<lambda>p. ''Unsupported factual claim detected: '' @ first_match_ic p t)
              (matching_factual_patterns t))"
proof -
  have "min (fmul (float_of_nat 0) (fl (1 / 10))) (fl (3 / 10)) = 0"
    using fl_nonneg [of "3 / 10"] by (simp add: float_of_nat_def fmul_def fl_def)
  moreover have "fadd (minus_each (fl (2 / 10)) k 1) 0 = minus_each (fl (2 / 10)) k 1" for k
    using fl_minus_each [of "fl (2 / 10)" k] by (simp add: fadd_def)
  ultimately show ?thesis
    unfolding factual_spec_def assms by (simp only:)
qed

lemma clamp01_id: "0 \<le> x \<Longrightarrow> x \<le> 1 \<Longrightarrow> clamp01 x = x"
  by (simp add: clamp01_def)

lemma empty_factual_spec: "factual_spec [] = (1, [])"
  by (simp add: factual_spec_no_hedges [OF empty_hedges] empty_factual minus_each_0 clamp01_def)

lemma empty_logical_spec: "logical_spec [] = (1, [])"
  by (simp add: logical_spec_def empty_pairs empty_segments minus_each_0 clamp01_def)

lemma empty_source_spec:
  "source_spec [] = (fl (6 / 10), [''No citations or source attributions found''])"
proof -
  have "clamp01 (fl (6 / 10)) = fl (6 / 10)"
    unfolding fl_6_10 by (simp add: clamp01_def)
  then show ?thesis
    unfolding source_spec_def fsub_1_04 using empty_citation by simp
qed

lemma sky_factual_spec:
  "factual_spec sky_text =
     (fl (8 / 10), [''Unsupported factual claim detected: According to recent studies,''])"
proof -
  have "minus_each (fl (2 / 10)) (Suc 0) 1 = fl (8 / 10)"
    unfolding minus_each_Suc minus_each_0 by (rule fsub_1_02)
  moreover have "clamp01 (fl (8 / 10)) = fl (8 / 10)"
    unfolding fl_8_10 by (simp add: clamp01_def)
  ultimately show ?thesis
    unfolding factual_spec_no_hedges [OF sky_hedges] sky_factual
    by (simp add: sky_first)
qed

lemma sky_logical_spec: "logical_spec sky_text = (1, [])"
  using sky_transition
  by (simp add: logical_spec_def sky_pairs sky_segments minus_each_0 clamp01_def)

lemma sky_source_spec: "source_spec sky_text = (1, [])"
  using sky_citation
  by (simp add: source_spec_def sky_short minus_each_0 clamp01_def)

lemma default_enabled:
  "factual_enabled (init None)" "logical_enabled (init None)" "source_enabled (init None)"
  "threshold (init None) = fl (7 / 10)" "warning_limit (init None) = 10"
  by (simp_all add: factual_enabled_def logical_enabled_def source_enabled_def threshold_def
      warning_limit_def init_def default_config_def dict_get_def)

lemma detector_score_Inr: "detector_score (Inr (s, ws)) = s"
  by (simp add: detector_score_def)

lemma detector_warnings_Inr: "detector_warnings (Inr (s, ws)) = ws"
  by (simp add: detector_warnings_def)

lemma empty_terms:
  "weighted_terms (init None) [] =
     [(1, fl (4 / 10)), (1, fl (3 / 10)), (fl (6 / 10), fl (3 / 10))]"
  unfolding weighted_terms_def validate_factual_claims_spec validate_logical_consistency_spec
    validate_source_attribution_spec empty_factual_spec empty_logical_spec empty_source_spec
    detector_score_Inr
  using default_enabled(1-3) by (simp only: if_True append.simps)

lemma empty_warnings:
  "untruncated_warnings (init None) [] = [''No citations or source attributions found'']"
  unfolding untruncated_warnings_def validate_factual_claims_spec validate_logical_consistency_spec
    validate_source_attribution_spec empty_factual_spec empty_logical_spec empty_source_spec
    detector_warnings_Inr
  using default_enabled(1-3) by (simp only: if_True append.simps)

lemma empty_details:
  "expected_details (init None) [] =
     [(''factual_validation'', \<lparr>detail_score = 1, detail_warnings = 0\<rparr>),
      (''logical_consistency'', \<lparr>detail_score = 1, detail_warnings = 0\<rparr>),
      (''source_attribution'', \<lparr>detail_score = fl (6 / 10), detail_warnings = 1\<rparr>)]"
  unfolding expected_details_def detail_of_def validate_factual_claims_spec
    validate_logical_consistency_spec validate_source_attribution_spec empty_factual_spec
    empty_logical_spec empty_source_spec detector_warnings_Inr detector_score_Inr
  using default_enabled(1-3) by (simp only: if_True append.simps list.size add_0 One_nat_def [symmetric])

text \<open>
  Claim C10, as amended. For the empty text under the default configuration, \<open>validate\<close>
  returns exactly one warning (no citations), the factual and logical sub-scores 1.0, the
  source sub-score 0.6, confidence MEDIUM and \<open>is_valid\<close> true; the score is the float
  0.8799999999999999, one unit in the last place below the float 0.88.
\<close>

theorem empty_text_result:
  "validate (init None) [] context mode now =
     Inr \<lparr>is_valid = True,
          confidence = MEDIUM,
          score = 7926335344172072 / 2 ^ 53,
          details =
            [(''factual_validation'', \<lparr>detail_score = 1, detail_warnings = 0\<rparr>),
             (''logical_consistency'', \<lparr>detail_score = 1, detail_warnings = 0\<rparr>),
             (''source_attribution'', \<lparr>detail_score = fl (6 / 10), detail_warnings = 1\<rparr>)],
          warnings = [''No citations or source attributions found''],
          timestamp = now,
          validation_type = mode\<rparr>
   \<and> (7926335344172072 / 2 ^ 53 :: rat) = fl (88 / 100) - 1 / 2 ^ 53"
proof -
  have v: "fl (7 / 10) \<le> 7926335344172072 / 2 ^ 53"
    and h: "\<not> fl (9 / 10) \<le> 7926335344172072 / 2 ^ 53"
    unfolding fl_7_10 fl_9_10 by simp_all
  have c: "determine_confidence (7926335344172072 / 2 ^ 53) = MEDIUM"
    unfolding determine_confidence_def using v h by (simp only: if_True if_False)
  have l: "limit_warnings 10 [''No citations or source attributions found'']
      = [''No citations or source attributions found'']"
    by (simp add: limit_warnings_def)
  have "(7926335344172072 / 2 ^ 53 :: rat) = fl (88 / 100) - 1 / 2 ^ 53"
    unfolding fl_88_100 by simp
  moreover have "validate (init None) [] context mode now =
     Inr \<lparr>is_valid = True,
          confidence = MEDIUM,
          score = 7926335344172072 / 2 ^ 53,
          details =
            [(''factual_validation'', \<lparr>detail_score = 1, detail_warnings = 0\<rparr>),
             (''logical_consistency'', \<lparr>detail_score = 1, detail_warnings = 0\<rparr>),
             (''source_attribution'', \<lparr>detail_score = fl (6 / 10), detail_warnings = 1\<rparr>)],
          warnings = [''No citations or source attributions found''],
          timestamp = now,
          validation_type = mode\<rparr>"
    unfolding validate_spec empty_terms empty_score empty_warnings empty_details
      default_enabled(4,5) c l
    using v by (simp only: simp_thms)
  ultimately show ?thesis by (simp only: simp_thms)
qed

text \<open>
  Claim C10, as stated, fails: the score of the empty text is not the float 0.88.
\<close>

theorem empty_text_score_not_088:
  "map_sum id score (validate (init None) [] None ''comprehensive'' 0) \<noteq> Inr (fl (88 / 100))"
proof -
  have "(7926335344172072 / 2 ^ 53 :: rat) \<noteq> fl (88 / 100)"
    unfolding fl_88_100 by simp
  then show ?thesis
    unfolding validate_spec empty_terms empty_score by simp
qed

text \<open>
  Claim C9. For the sentence about the sky and the default configuration: the factual
  detector emits one warning, for the pattern \<open>according to [^,]+,\<close>; the logical detector
  emits none (\<open>always\<close> occurs as a word, \<open>never\<close> does not); the source detector emits
  none, \<open>according to\<close> being a citation pattern; and \<open>validate\<close> returns the factual
  warning alone.
\<close>

theorem sky_text_warnings:
  "validate_factual_claims (init None) sky_text =
     Inr (fl (8 / 10), [''Unsupported factual claim detected: According to recent studies,''])
   \<and> validate_logical_consistency (init None) sky_text = Inr (1, [])
   \<and> validate_source_attribution (init None) sky_text = Inr (1, [])
   \<and> whole_word_ic ''always'' sky_text \<and> \<not> whole_word_ic ''never'' sky_text
   \<and> matches_ic ''according to'' sky_text \<and> has_citation sky_text
   \<and> (\<exists>r. validate (init None) sky_text context mode now = Inr r
          \<and> warnings r = [''Unsupported factual claim detected: According to recent studies,''])"
proof -
  have w: "untruncated_warnings (init None) sky_text =
      [''Unsupported factual claim detected: According to recent studies,'']"
    unfolding untruncated_warnings_def validate_factual_claims_spec
      validate_logical_consistency_spec validate_source_attribution_spec sky_factual_spec
      sky_logical_spec sky_source_spec detector_warnings_Inr
    using default_enabled(1-3) by (simp only: if_True append.simps)
  have "\<exists>r. validate (init None) sky_text context mode now = Inr r
          \<and> warnings r = [''Unsupported factual claim detected: According to recent studies,'']"
    unfolding validate_spec w default_enabled(5) by (simp add: limit_warnings_def)
  then show ?thesis
    using sky_always sky_according sky_citation
    by (simp only: validate_factual_claims_spec validate_logical_consistency_spec
        validate_source_attribution_spec sky_factual_spec sky_logical_spec sky_source_spec simp_thms)
qed

lemma digit_char_zero_iff: "(n::nat) < 10 \<Longrightarrow> char_of (48 + n) = CHR ''0'' \<longleftrightarrow> n = 0"
  by (simp add: char_of_eq_iff take_bit_eq_mod)

lemma str_nat_nonempty: "str_nat n \<noteq> []"
  by (subst str_nat.simps) simp

lemma str_nat_zero_iff: "str_nat n = ''0'' \<longleftrightarrow> n = 0"
proof (cases "n < 10")
  case True
  then show ?thesis
    by (subst str_nat.simps) (simp add: digit_char_zero_iff)
next
  case False
  then have "str_nat n = str_nat (n div 10) @ [char_of (48 + n mod 10)]"
    by (subst str_nat.simps) simp
  moreover have "length (str_nat (n div 10)) \<noteq> 0"
    using str_nat_nonempty [of "n div 10"] by simp
  ultimately have "length (str_nat n) \<noteq> 1" by simp
  then have "str_nat n \<noteq> ''0''" by auto
  with False show ?thesis by simp
qed

lemma str_int_zero_iff: "0 \<le> i \<Longrightarrow> str_int i = ''0'' \<longleftrightarrow> i = 0"
  by (simp add: str_int_def str_nat_zero_iff)

lemma limit_warnings_cut:
  assumes "0 \<le> k" "k < int (length ws)"
  shows "limit_warnings k ws =
           take (nat k) ws
           @ [''... and '' @ str_int (int (length (take (nat k) ws)) - k) @ '' more warnings'']"
    and "int (length (take (nat k) ws)) - k = 0"
  using assms by (simp_all add: limit_warnings_def slice_to_def Let_def min_def)

text \<open>
  Claim C4, as amended. For every configuration whose \<open>max_warnings\<close> is \<open>k \<ge> 0\<close> and every
  call whose enabled detectors produce more than \<open>k\<close> warnings, the returned warnings have
  length \<open>k + 1\<close>, their first \<open>k\<close> entries are the first \<open>k\<close> of the untruncated
  concatenation (factual, logical, source), and the last entry is the summary, whose count is
  the length of the list after the cut minus \<open>k\<close>, that is 0, and not the number of omitted
  warnings.
\<close>

theorem warnings_truncated:
  assumes "0 \<le> warning_limit (init cfg)"
    and "warning_limit (init cfg) < int (length (untruncated_warnings (init cfg) text))"
  shows "\<exists>r. validate (init cfg) text context mode now = Inr r
      \<and> int (length (warnings r)) = warning_limit (init cfg) + 1
      \<and> take (nat (warning_limit (init cfg))) (warnings r)
          = take (nat (warning_limit (init cfg))) (untruncated_warnings (init cfg) text)
      \<and> last (warnings r)
          = ''... and ''
            @ str_int (int (length (take (nat (warning_limit (init cfg)))
                                      (untruncated_warnings (init cfg) text)))
                       - warning_limit (init cfg))
            @ '' more warnings''
      \<and> last (warnings r) = ''... and 0 more warnings''
      \<and> last (warnings r)
          \<noteq> ''... and ''
            @ str_int (int (length (untruncated_warnings (init cfg) text)) - warning_limit (init cfg))
            @ '' more warnings''"
proof -
  define k where "k = warning_limit (init cfg)"
  define W where "W = untruncated_warnings (init cfg) text"
  from assms have k: "0 \<le> k" "k < int (length W)" by (simp_all add: k_def W_def)
  note cut = limit_warnings_cut [OF k]
  have z: "str_int (int (length (take (nat k) W)) - k) = ''0''"
    unfolding cut(2) by (simp add: str_int_zero_iff)
  have "str_int (int (length W) - k) \<noteq> ''0''"
    using k by (simp add: str_int_zero_iff)
  then have ne: "''... and '' @ ''0'' @ '' more warnings''
      \<noteq> ''... and '' @ str_int (int (length W) - k) @ '' more warnings''"
    by (simp only: append_same_eq same_append_eq) simp
  have len: "int (length (limit_warnings k W)) = k + 1"
    unfolding cut(1) using k by simp
  have tk: "take (nat k) (limit_warnings k W) = take (nat k) W"
    unfolding cut(1) using k by simp
  have lst: "last (limit_warnings k W)
      = ''... and '' @ str_int (int (length (take (nat k) W)) - k) @ '' more warnings''"
    unfolding cut(1) by simp
  show ?thesis
    unfolding validate_spec k_def [symmetric] W_def [symmetric]
    using len tk lst ne z by simp
qed

lemma untruncated_warnings_spec:
  "untruncated_warnings (init cfg) t =
     (if factual_enabled (init cfg) then snd (factual_spec t) else [])
     @ (if logical_enabled (init cfg) then snd (logical_spec t) else [])
     @ (if source_enabled (init cfg) then snd (source_spec t) else [])"
  by (simp add: untruncated_warnings_def validate_factual_claims_spec
      validate_logical_consistency_spec validate_source_attribution_spec detector_warnings_def
      split: prod.splits)

lemma limit_one_flags:
  "factual_enabled (init (Some limit_one_config))" "logical_enabled (init (Some limit_one_config))"
  "source_enabled (init (Some limit_one_config))" "warning_limit (init (Some limit_one_config)) = 1"
  by (simp_all add: factual_enabled_def logical_enabled_def source_enabled_def warning_limit_def
      init_def limit_one_config_def empty_config_def dict_get_def)

lemma negative_limit_flags:
  "factual_enabled (init (Some negative_limit_config))"
  "logical_enabled (init (Some negative_limit_config))"
  "source_enabled (init (Some negative_limit_config))"
  "warning_limit (init (Some negative_limit_config)) = - 1"
  by (simp_all add: factual_enabled_def logical_enabled_def source_enabled_def warning_limit_def
      init_def negative_limit_config_def empty_config_def dict_get_def)

lemma contradiction_text_factual:
  "map (\<lambda>p. ''Unsupported factual claim detected: '' @ first_match_ic p contradiction_text)
     (matching_factual_patterns contradiction_text)
   = [''Unsupported factual claim detected: studies show'']"
  by code_simp

lemma contradiction_text_pairs: "contradicting_pairs contradiction_text = [(''always'', ''never'')]"
  by code_simp

lemma contradiction_text_citation: "\<not> has_citation contradiction_text"
  by code_simp

lemma contradiction_text_warnings:
  "untruncated_warnings (init (Some limit_one_config)) contradiction_text =
     [''Unsupported factual claim detected: studies show'',
      ''Potential contradiction detected: always vs never'',
      ''No citations or source attributions found'']"
proof -
  have f: "snd (factual_spec contradiction_text)
      = [''Unsupported factual claim detected: studies show'']"
    unfolding factual_spec_def snd_conv by (rule contradiction_text_factual)
  have l: "snd (logical_spec contradiction_text)
      = [''Potential contradiction detected: always vs never'']"
    unfolding logical_spec_def snd_conv contradiction_text_pairs by simp
  have s: "snd (source_spec contradiction_text) = [''No citations or source attributions found'']"
    unfolding source_spec_def using contradiction_text_citation by simp
  show ?thesis
    unfolding untruncated_warnings_spec f l s using limit_one_flags(1-3) by simp
qed

text \<open>
  The limit 1 on a text with three warnings: the factual warning is kept and the summary
  follows.
\<close>

theorem warnings_truncated_witness:
  "0 \<le> warning_limit (init (Some limit_one_config))
   \<and> warning_limit (init (Some limit_one_config))
       < int (length (untruncated_warnings (init (Some limit_one_config)) contradiction_text))
   \<and> (\<exists>r. validate (init (Some limit_one_config)) contradiction_text None ''comprehensive'' 0 = Inr r
          \<and> int (length (warnings r)) = 2
          \<and> take 1 (warnings r) = [''Unsupported factual claim detected: studies show'']
          \<and> last (warnings r) = ''... and 0 more warnings'')"
proof -
  have h1: "0 \<le> warning_limit (init (Some limit_one_config))"
    by (simp add: limit_one_flags)
  have h2: "warning_limit (init (Some limit_one_config))
       < int (length (untruncated_warnings (init (Some limit_one_config)) contradiction_text))"
    by (simp add: limit_one_flags contradiction_text_warnings)
  from warnings_truncated [OF h1 h2, of None "''comprehensive''" 0] h1 h2
  show ?thesis
    by (auto simp: limit_one_flags contradiction_text_warnings)
qed

lemma negative_limit_cut:
  "limit_warnings (- 1) [''No citations or source attributions found'']
     = [''... and 1 more warnings'']"
  by code_simp

lemma negative_limit_warnings:
  "untruncated_warnings (init (Some negative_limit_config)) []
     = [''No citations or source attributions found'']"
  using negative_limit_flags(1-3)
  by (simp add: untruncated_warnings_spec empty_factual_spec empty_logical_spec empty_source_spec)

text \<open>
  Claim C4, as stated, fails for a negative limit: with \<open>max_warnings = -1\<close> the empty text
  has one warning, more than the limit, and the result has one entry, not \<open>k + 1 = 0\<close>.
\<close>

theorem negative_limit_not_truncated:
  "warning_limit (init (Some negative_limit_config)) = - 1
   \<and> warning_limit (init (Some negative_limit_config))
       < int (length (untruncated_warnings (init (Some negative_limit_config)) []))
   \<and> map_sum id warnings (validate (init (Some negative_limit_config)) [] None ''comprehensive'' 0)
       = Inr [''... and 1 more warnings'']
   \<and> \<not> (\<exists>r. validate (init (Some negative_limit_config)) [] None ''comprehensive'' 0 = Inr r
            \<and> int (length (warnings r)) = warning_limit (init (Some negative_limit_config)) + 1)"
  by (simp add: validate_spec negative_limit_flags negative_limit_warnings negative_limit_cut)

text \<open>
  Claim C5. For every text, the factual detector returns the clamp to [0.0, 1.0] of 1.0 minus
  0.2 for each factual pattern that matches, ignoring case, plus the minimum of 0.1 times the
  total number of matches of the uncertainty indicators and 0.3; and one warning per
  matching pattern, quoting its first match.
\<close>

theorem factual_detector_closed_form:
  "validate_factual_claims (init cfg) text =
     Inr (clamp01
            (fadd (minus_each (fl (2 / 10)) (length (matching_factual_patterns text)) 1)
               (min (fmul (float_of_nat (hedge_count text)) (fl (1 / 10))) (fl (3 / 10)))),
          map (\<lambda>p. ''Unsupported factual claim detected: '' @ first_match_ic p text)
            (matching_factual_patterns text))"
  unfolding factual_spec_def [symmetric] by (rule validate_factual_claims_spec)

text \<open>
  Claim C6. For every text, the logical detector returns the clamp to [0.0, 1.0] of 1.0 minus
  0.3 for each of the four pairs whose two words both occur as whole words, ignoring case,
  plus 0.1 exactly when splitting on \<open>[.!?]+\<close> gives more than one segment and a transition
  word is a substring of the lower-cased text; and one warning per such pair, naming it.
\<close>

theorem logical_detector_closed_form:
  "validate_logical_consistency (init cfg) text =
     Inr (clamp01
            (let s = minus_each (fl (3 / 10)) (length (contradicting_pairs text)) 1
             in if 1 < length (segments text) \<and> has_transition text
                then fadd s (fl (1 / 10)) else s),
          map (\<lambda>(pos, neg). ''Potential contradiction detected: '' @ pos @ '' vs '' @ neg)
            (contradicting_pairs text))"
  unfolding logical_spec_def [symmetric] by (rule validate_logical_consistency_spec)

text \<open>
  Claim C7. For every text, the source detector warns of missing citations and subtracts 0.4
  exactly when no citation pattern matches; exactly when one matches, it subtracts 0.1 and
  warns of an incomplete citation for each bracketed span shorter than 5 characters, whichever
  citation pattern matched; the sub-score is the clamp of the total to [0.0, 1.0].
\<close>

theorem source_detector_closed_form:
  "validate_source_attribution (init cfg) text =
     Inr (if has_citation text
          then (clamp01 (minus_each (fl (1 / 10)) (length (short_spans text)) 1),
                map (\<lambda>c. ''Incomplete citation: '' @ c) (short_spans text))
          else (clamp01 (fsub 1 (fl (4 / 10))), [''No citations or source attributions found'']))"
  unfolding source_spec_def [symmetric] by (rule validate_source_attribution_spec)

section \<open>The closed forms at concrete texts\<close>

lemma fl_1_10: "fl (1 / 10) = 7205759403792794 / 2 ^ 56"
  by (rule fl_eqI [where e = "- 56"]) (simp_all add: fl_eval)

lemma float_of_nat_2: "float_of_nat 2 = 2"
  using fl_representable [of 2 0 1] by (simp add: float_of_nat_def)

lemma fmul_2_01: "fmul 2 (fl (1 / 10)) = fl (2 / 10)"
  unfolding fmul_def fl_1_10 fl_2_10
  by (rule fl_eqI [where e = "- 55"]) (simp_all add: fl_eval)

lemma min_02_03: "min (fl (2 / 10)) (fl (3 / 10)) = fl (2 / 10)"
  unfolding fl_2_10 fl_3_10 by simp

lemma fadd_08_02: "fadd (fl (8 / 10)) (fl (2 / 10)) = 1"
  unfolding fadd_def fl_8_10 fl_2_10
  by (rule fl_eqI [where e = "- 52"]) (simp_all add: fl_eval)

lemma fsub_1_03: "fsub 1 (fl (3 / 10)) = fl (7 / 10)"
  unfolding fsub_def fl_3_10 fl_7_10
  by (rule fl_eqI [where e = "- 53"]) (simp_all add: fl_eval)

lemma fadd_07_01: "fadd (fl (7 / 10)) (fl (1 / 10)) = 7205759403792793 / 2 ^ 53"
  unfolding fadd_def fl_7_10 fl_1_10
  by (rule fl_eqI [where e = "- 53"]) (simp_all add: fl_eval)

lemma fsub_1_01: "fsub 1 (fl (1 / 10)) = fl (9 / 10)"
  unfolding fsub_def fl_1_10 fl_9_10
  by (rule fl_eqI [where e = "- 53"]) (simp_all add: fl_eval)

lemma hedged_factual: "matching_factual_patterns hedged_text = [''studies show'']"
  by code_simp

lemma hedged_first: "first_match_ic ''studies show'' hedged_text = ''Studies show''"
  by code_simp

lemma hedged_count: "hedge_count hedged_text = 2"
  by code_simp

lemma however_pairs: "contradicting_pairs however_text = [(''always'', ''never'')]"
  by code_simp

lemma however_segments:
  "segments however_text = [''It is always so'', '' However, it is never so'', []]"
  by code_simp

lemma however_transition: "has_transition however_text"
  by code_simp

lemma source_text_citation:
  "has_citation source_text \<and> matches_ic ''source:'' source_text
   \<and> \<not> matches_ic (bs @ ''[['' @ bs @ ''d'' @ bs @ ''w'' @ bs @ ''s,]+'' @ bs @ '']'') source_text"
  by code_simp

lemma source_text_spans: "bracketed_spans source_text = [''[]'']"
  by code_simp

lemma source_text_short: "short_spans source_text = [''[]'']"
  by code_simp

text \<open>
  One factual pattern and two hedges: 1.0 - 0.2 + min(2 * 0.1, 0.3) is 1.0.
\<close>

theorem factual_detector_closed_form_witness:
  "validate_factual_claims (init None) hedged_text =
     Inr (1, [''Unsupported factual claim detected: Studies show''])"
proof -
  have m: "minus_each (fl (2 / 10)) (Suc 0) 1 = fl (8 / 10)"
    unfolding minus_each_Suc minus_each_0 by (rule fsub_1_02)
  have k: "length (matching_factual_patterns hedged_text) = Suc 0"
    by (simp add: hedged_factual)
  have "clamp01
            (fadd (minus_each (fl (2 / 10)) (length (matching_factual_patterns hedged_text)) 1)
               (min (fmul (float_of_nat (hedge_count hedged_text)) (fl (1 / 10))) (fl (3 / 10))))
      = 1"
    unfolding k m hedged_count float_of_nat_2 fmul_2_01 min_02_03 fadd_08_02
    by (simp add: clamp01_def)
  moreover have "map (\<lambda>p. ''Unsupported factual claim detected: '' @ first_match_ic p hedged_text)
            (matching_factual_patterns hedged_text)
      = [''Unsupported factual claim detected: Studies show'']"
    unfolding hedged_factual by (simp add: hedged_first)
  ultimately show ?thesis
    using factual_detector_closed_form [of None hedged_text] by (simp only:)
qed

text \<open>
  One contradicting pair and a transition word in two sentences: 1.0 - 0.3 + 0.1 is the float
  0.7999999999999999.
\<close>

theorem logical_detector_closed_form_witness:
  "validate_logical_consistency (init None) however_text =
     Inr (7205759403792793 / 2 ^ 53, [''Potential contradiction detected: always vs never''])"
proof -
  have m: "minus_each (fl (3 / 10)) (Suc 0) 1 = fl (7 / 10)"
    unfolding minus_each_Suc minus_each_0 by (rule fsub_1_03)
  have c: "clamp01 (7205759403792793 / 2 ^ 53) = 7205759403792793 / 2 ^ 53"
    by (simp add: clamp01_def)
  have k: "length (contradicting_pairs however_text) = Suc 0"
    by (simp add: however_pairs)
  have t: "(1 < length (segments however_text) \<and> has_transition however_text) = True"
    using however_transition by (simp add: however_segments)
  have "clamp01
            (let s = minus_each (fl (3 / 10)) (length (contradicting_pairs however_text)) 1
             in if 1 < length (segments however_text) \<and> has_transition however_text
                then fadd s (fl (1 / 10)) else s)
      = 7205759403792793 / 2 ^ 53"
    unfolding k m t Let_def if_True fadd_07_01 by (rule c)
  moreover have "map (\<lambda>(pos, neg). ''Potential contradiction detected: '' @ pos @ '' vs '' @ neg)
            (contradicting_pairs however_text)
      = [''Potential contradiction detected: always vs never'']"
    unfolding however_pairs by simp
  ultimately show ?thesis
    using logical_detector_closed_form [of None however_text] by (simp only:)
qed

text \<open>
  A citation by \<open>source:\<close>, not by a bracketed reference, and the short span \<open>[]\<close>:
  the incomplete citation is reported all the same.
\<close>

theorem source_detector_closed_form_witness:
  "validate_source_attribution (init None) source_text =
     Inr (fl (9 / 10), [''Incomplete citation: []''])
   \<and> matches_ic ''source:'' source_text
   \<and> \<not> matches_ic (bs @ ''[['' @ bs @ ''d'' @ bs @ ''w'' @ bs @ ''s,]+'' @ bs @ '']'') source_text"
proof -
  have m: "minus_each (fl (1 / 10)) (Suc 0) 1 = fl (9 / 10)"
    unfolding minus_each_Suc minus_each_0 by (rule fsub_1_01)
  have c: "clamp01 (fl (9 / 10)) = fl (9 / 10)"
    unfolding fl_9_10 by (simp add: clamp01_def)
  have "validate_source_attribution (init None) source_text =
     Inr (fl (9 / 10), [''Incomplete citation: []''])"
    using source_detector_closed_form [of None source_text] source_text_citation
    unfolding source_text_short by (simp add: m c)
  then show ?thesis using source_text_citation by (simp only: simp_thms)
qed

end
